theory Spec2Isabelle
  imports Main "HOL-Library.Multiset"
begin

section \<open>Email notification functions of src/functions/index.js\<close>

text \<open>
  The four Cloud Functions \<open>sendInviteEmail\<close>, \<open>sendTaskAssignedEmail\<close>,
  \<open>sendDueDateReminders\<close> and \<open>sendCommentNotification\<close> are embedded as functions
  that take the documents of the triggering event and an environment (the document store,
  the email service) and return the handler's result together with the delivery calls
  made, in order. An awaited call that rejects is a value \<open>Inl message\<close>; the
  \<open>try\<close>/\<open>catch\<close> blocks of the source are the case distinctions on it.
  The HTML and text templates are not rendered: an email is its \<open>to\<close> address and the
  arguments handed to the template functions.
\<close>

subsection \<open>JavaScript values\<close>

text \<open>
  Document fields that hold a string or are absent: \<open>undefined\<close>, \<open>null\<close> or a string.
  Equality of the datatype is \<open>===\<close> on these values.
\<close>

datatype field = Undefined | Null | Str string

text \<open>Fields whose value the source only tests (\<open>emailSent\<close>, \<open>emailPreferences\<close>)
  range over all the kinds of values a document can hold.\<close>

datatype jsval =
    JUndefined
  | JNull
  | JBool bool
  | JNum int
  | JStr string
  | JObj "(string \<times> jsval) list"

fun truthy :: "jsval \<Rightarrow> bool" where
  "truthy JUndefined = False"
| "truthy JNull = False"
| "truthy (JBool b) = b"
| "truthy (JNum n) = (n \<noteq> 0)"
| "truthy (JStr s) = (s \<noteq> [])"
| "truthy (JObj fs) = True"

fun truthy_field :: "field \<Rightarrow> bool" where
  "truthy_field Undefined = False"
| "truthy_field Null = False"
| "truthy_field (Str s) = (s \<noteq> [])"

text \<open>\<open>a || b\<close> on fields.\<close>

definition or_else :: "field \<Rightarrow> field \<Rightarrow> field" where
  "or_else a b = (if truthy_field a then a else b)"

subsection \<open>Documents\<close>

text \<open>
  The documents carry the fields that the handlers inspect or pass on. \<open>comment.text\<close>
  and \<open>task.status\<close> are strings, as in the data model. \<open>task.dueDate\<close> is absent or a
  timestamp, held in whole milliseconds: the query compares it with bounds that are whole
  milliseconds, so the truncation does not change its result. \<open>invite.role\<close>,
  \<open>task.priority\<close> and \<open>task.description\<close> are \<open>undefined\<close>, \<open>null\<close> or a string; the
  handlers call \<open>charAt\<close> on the first two, which throws unless they are strings.
\<close>

record user =
  name :: field
  email :: field
  emailPreferences :: jsval

datatype timestamp_field = NoTimestamp | ServerTimestamp

record invite =
  status :: field
  emailSent :: jsval
  invitedBy :: field
  role :: field
  inviteEmail :: field
  tenantName :: field
  emailSentAt :: timestamp_field
  emailId :: field
  emailError :: field
  emailAttemptedAt :: timestamp_field

record tenant =
  tenant_name :: field
  slug :: field

record project =
  title :: field

record task =
  taskTitle :: field
  description :: field
  priority :: field
  assignedTo :: field
  updatedBy :: field
  dueDate :: "int option"
  taskStatus :: string

record comment =
  commentText :: string
  createdBy :: field

subsection \<open>Preference gate\<close>

datatype category = TaskAssigned | DueReminders | Comments

fun category_name :: "category \<Rightarrow> string" where
  "category_name TaskAssigned = ''taskAssigned''"
| "category_name DueReminders = ''dueReminders''"
| "category_name Comments = ''comments''"

text \<open>\<open>prefs?.category\<close>: \<open>undefined\<close> when \<open>prefs\<close> is \<open>undefined\<close> or \<open>null\<close>,
  the property otherwise; a primitive has none of the three properties.\<close>

fun optional_member :: "jsval \<Rightarrow> category \<Rightarrow> jsval" where
  "optional_member (JObj fs) c =
     (case map_of fs (category_name c) of None \<Rightarrow> JUndefined | Some v \<Rightarrow> v)"
| "optional_member v c = JUndefined"

text \<open>\<open>user.emailPreferences?.category === false\<close> (lines 271, 402, 507).\<close>

definition preference_disabled :: "user \<Rightarrow> category \<Rightarrow> bool" where
  "preference_disabled u c = (optional_member (emailPreferences u) c = JBool False)"

subsection \<open>Mentions\<close>

text \<open>
  \<open>mentionRegex = /@\[([^\]]+)\]\(([^)]+)\)/g\<close>. A group \<open>([^c]+)\<close> followed by the
  character \<open>c\<close> takes the longest run of characters other than \<open>c\<close>; it matches when the
  run is not empty and \<open>c\<close> follows, and no shorter run can match, since the character
  after a shorter run is not \<open>c\<close>.
\<close>

definition group_until :: "char \<Rightarrow> string \<Rightarrow> (string \<times> string) option" where
  "group_until c s =
     (let g = takeWhile (\<lambda>x. x \<noteq> c) s; r = dropWhile (\<lambda>x. x \<noteq> c) s
      in if g = [] \<or> r = [] then None else Some (g, tl r))"

text \<open>A match of the regular expression at the start of the string:
  the label, the identifier and the text after the match.\<close>

definition match_here :: "string \<Rightarrow> (string \<times> string \<times> string) option" where
  "match_here s =
     (if take 2 s = ''@['' then
        (case group_until (CHR '']'') (drop 2 s) of
           None \<Rightarrow> None
         | Some (label, s2) \<Rightarrow>
             (if take 1 s2 = ''('' then
                (case group_until (CHR '')'') (drop 1 s2) of
                   None \<Rightarrow> None
                 | Some (uid, rest) \<Rightarrow> Some (label, uid, rest))
              else None))
      else None)"

datatype piece = Lit char | Mention string string

text \<open>The text cut at the matches of the global expression: each search starts where the
  previous match ended and takes the leftmost match; a character at which no match starts
  is passed over.\<close>

function scan :: "string \<Rightarrow> piece list" where
  "scan [] = []"
| "scan (c # cs) =
     (case match_here (c # cs) of
        Some (label, uid, rest) \<Rightarrow> Mention label uid # scan rest
      | None \<Rightarrow> Lit c # scan cs)"
  by pat_completeness auto
termination
proof (relation "measure length", goal_cases)
  case 1
  show ?case by simp
next
  case (2 c cs)
  show ?case by simp
next
  case (3 c cs x2 label y uid rest)
  have g: "\<And>ch s a b. group_until ch s = Some (a, b) \<Longrightarrow> length b < length s"
  proof -
    fix ch :: char and s a b
    assume "group_until ch s = Some (a, b)"
    then have "b = tl (dropWhile (\<lambda>x. x \<noteq> ch) s)" and "dropWhile (\<lambda>x. x \<noteq> ch) s \<noteq> []"
      by (auto simp: group_until_def Let_def split: if_splits)
    moreover have "length (dropWhile (\<lambda>x. x \<noteq> ch) s) \<le> length s"
      by (rule length_dropWhile_le)
    ultimately show "length b < length s"
      by (cases "dropWhile (\<lambda>x. x \<noteq> ch) s") auto
  qed
  from 3 obtain s2 where
    a: "group_until (CHR '']'') (drop 2 (c # cs)) = Some (label, s2)" and
    b: "group_until (CHR '')'') (drop 1 s2) = Some (uid, rest)"
    by (auto simp: match_here_def split: if_splits option.splits)
  from g [OF a] g [OF b] have "length rest < length (c # cs)" by simp
  then show ?case by simp
qed

text \<open>The successive results of \<open>mentionRegex.exec(comment.text)\<close> until \<open>null\<close>:
  the pairs of \<open>match[1]\<close> and \<open>match[2]\<close>.\<close>

fun exec_all :: "piece list \<Rightarrow> (string \<times> string) list" where
  "exec_all [] = []"
| "exec_all (Lit c # ps) = exec_all ps"
| "exec_all (Mention label uid # ps) = (label, uid) # exec_all ps"

text \<open>\<open>comment.text.replace(mentionRegex, "$1")\<close>: every match is replaced by its label.\<close>

fun replace_pieces :: "piece list \<Rightarrow> string" where
  "replace_pieces [] = []"
| "replace_pieces (Lit c # ps) = c # replace_pieces ps"
| "replace_pieces (Mention label uid # ps) = label @ replace_pieces ps"

definition replace_mentions :: "string \<Rightarrow> string" where
  "replace_mentions txt = replace_pieces (scan txt)"

text \<open>\<open>usersToNotify\<close> is a \<open>Set\<close>: a list in insertion order without repetition.\<close>

definition set_add :: "'a \<Rightarrow> 'a list \<Rightarrow> 'a list" where
  "set_add x xs = (if x \<in> set xs then xs else xs @ [x])"

text \<open>Lines 484-486: the assignee, if there is one and it is not the commenter.\<close>

definition add_assignee :: "task \<Rightarrow> comment \<Rightarrow> string list \<Rightarrow> string list" where
  "add_assignee t c us =
     (case assignedTo t of
        Str a \<Rightarrow> (if a \<noteq> [] \<and> Str a \<noteq> createdBy c then set_add a us else us)
      | _ \<Rightarrow> us)"

text \<open>Lines 491-496: the \<open>while\<close> loop over the matches.\<close>

definition add_mentions :: "field \<Rightarrow> string \<Rightarrow> string list \<Rightarrow> string list" where
  "add_mentions author txt us =
     foldl (\<lambda>acc (label, mentionedUserId).
              if Str mentionedUserId \<noteq> author then set_add mentionedUserId acc else acc)
       us (exec_all (scan txt))"

definition usersToNotify :: "task \<Rightarrow> comment \<Rightarrow> string list" where
  "usersToNotify t c = add_mentions (createdBy c) (commentText c) (add_assignee t c [])"

subsection \<open>Emails, the environment and results\<close>

text \<open>A task of a digest: \<open>{...task, id, projectTitle, projectId}\<close> (lines 385-390).\<close>

record digest_task =
  dt_task :: task
  dt_id :: string
  dt_projectTitle :: field
  dt_projectId :: string

text \<open>
  The arguments given to the template functions, by kind of email: for an invite the
  tenant's name, the inviter's name and the role (its capitalised form \<open>roleName\<close> and the
  links built from \<open>APP_URL\<close> are not embedded); for an assignment the task's title and
  description, the project's title, the tenant's name, the assigner's name, the priority
  and the due date; for a digest the user's name, the tenant's name and slug and the
  tasks; for a comment the task's title, the project's title, the tenant's name, the
  commenter's name and the display text.
\<close>

datatype content =
    InviteMail field field string
  | TaskAssignedMail field field field field field string "int option"
  | DueReminderMail field field field "digest_task list"
  | CommentMail field field field field string

record mail =
  to :: field
  content :: content

text \<open>\<open>resend.emails.send\<close> rejects, resolves to \<open>{data: null, error}\<close> with the message of
  the error, or resolves to \<open>{data, error: null}\<close> with \<open>data.id\<close>.\<close>

datatype send_result = SendRaises string | SendError string | SendOk string

text \<open>The error with which the delivery call rejects, if it does.\<close>

fun raised :: "send_result \<Rightarrow> string option" where
  "raised (SendRaises err) = Some err"
| "raised (SendError err) = None"
| "raised (SendOk eid) = None"

text \<open>\<open>snapshot.ref.update\<close> of the invite handler: lines 104-108 and 115-118.\<close>

datatype invite_update = MarkSent string | MarkFailed string

text \<open>
  The environment of one invocation. A lookup \<open>.get()\<close> rejects (\<open>Inl\<close>), finds no
  document (\<open>Inr None\<close>, \<open>exists\<close> is false) or returns the data. A collection is the
  list of its documents with their identifiers, in the order the snapshot gives them.
  \<open>update\<close> is \<open>None\<close> when the write succeeds and the message of the error otherwise;
  \<open>newResend\<close> is the same for \<open>new Resend(resendApiKey.value())\<close>, which throws when no
  key is configured. \<open>utcOffset\<close> is the difference in milliseconds between the local
  time of the runtime and UTC.
\<close>

record env =
  users :: "string \<Rightarrow> string + user option"
  tenantDoc :: "string \<Rightarrow> string + tenant option"
  projectDoc :: "string \<Rightarrow> string \<Rightarrow> string + project option"
  taskDoc :: "string \<Rightarrow> string \<Rightarrow> string \<Rightarrow> string + task option"
  tenantsSnapshot :: "string + (string \<times> tenant) list"
  projectsSnapshot :: "string \<Rightarrow> string + (string \<times> project) list"
  tasksCollection :: "string \<Rightarrow> string \<Rightarrow> string + (string \<times> task) list"
  newResend :: "string option"
  send :: "mail \<Rightarrow> send_result"
  update :: "invite_update \<Rightarrow> string option"
  utcOffset :: int

text \<open>What a handler returns: \<open>null\<close>, \<open>{success: true}\<close>, \<open>{success: true, emailId}\<close>,
  \<open>{success: false, error}\<close>, or an error that leaves the handler. Every handler also
  yields the list of the delivery calls it made, in order, a call that raised included.\<close>

datatype handler_result =
    ReturnNull
  | Success
  | SuccessId string
  | Failure string
  | Rejected string

text \<open>Lines 61-71, 288-294 and 470-476: the display name of the acting user,
  \<open>doc.data().name || doc.data().email || default\<close>.\<close>

definition display_name :: "env \<Rightarrow> field \<Rightarrow> field \<Rightarrow> string + field" where
  "display_name e who dflt =
     (case who of
        Str uid \<Rightarrow>
          (if uid = [] then Inr dflt
           else (case users e uid of
                   Inl err \<Rightarrow> Inl err
                 | Inr None \<Rightarrow> Inr dflt
                 | Inr (Some u) \<Rightarrow> Inr (or_else (or_else (name u) (email u)) dflt)))
      | _ \<Rightarrow> Inr dflt)"

text \<open>\<open>x.charAt(0)\<close> on a field (lines 74 and 589): the string, or the \<open>TypeError\<close>
  thrown when \<open>x\<close> is \<open>undefined\<close> or \<open>null\<close>.\<close>

fun charAt_receiver :: "field \<Rightarrow> string + string" where
  "charAt_receiver Undefined = Inl ''Cannot read properties of undefined (reading 'charAt')''"
| "charAt_receiver Null = Inl ''Cannot read properties of null (reading 'charAt')''"
| "charAt_receiver (Str s) = Inr s"

subsection \<open>sendInviteEmail\<close>

fun apply_update :: "invite_update \<Rightarrow> invite \<Rightarrow> invite" where
  "apply_update (MarkSent eid) invite =
     invite\<lparr>emailSent := JBool True, emailSentAt := ServerTimestamp, emailId := Str eid\<rparr>"
| "apply_update (MarkFailed msg) invite =
     invite\<lparr>emailError := Str msg, emailAttemptedAt := ServerTimestamp\<rparr>"

record invite_outcome =
  result :: handler_result
  sent :: "mail list"
  writes :: "invite_update list"
  doc :: invite

definition invite_mail :: "invite \<Rightarrow> field \<Rightarrow> string \<Rightarrow> mail" where
  "invite_mail invite inviterName r =
     \<lparr>to = inviteEmail invite, content = InviteMail (tenantName invite) inviterName r\<rparr>"

text \<open>The \<open>try\<close> block, lines 57-110: the thrown message or the email identifier, with
  the delivery calls, the update calls and the document as it is afterwards. The client is
  built at line 58, the inviter is looked up at lines 61-71, \<open>invite.role.charAt\<close> is
  called at line 74 and the email is sent at line 77.\<close>

definition invite_try :: "env \<Rightarrow> invite \<Rightarrow> (string + string) \<times> mail list \<times> invite_update list \<times> invite" where
  "invite_try e invite =
     (case newResend e of
        Some err \<Rightarrow> (Inl err, [], [], invite)
      | None \<Rightarrow>
     (case display_name e (invitedBy invite) (Str ''A team member'') of
        Inl err \<Rightarrow> (Inl err, [], [], invite)
      | Inr inviterName \<Rightarrow>
     (case charAt_receiver (role invite) of
        Inl err \<Rightarrow> (Inl err, [], [], invite)
      | Inr r \<Rightarrow>
          (let m = invite_mail invite inviterName r in
           case send e m of
             SendRaises err \<Rightarrow> (Inl err, [m], [], invite)
           | SendError err \<Rightarrow> (Inl err, [m], [], invite)
           | SendOk eid \<Rightarrow>
               (case update e (MarkSent eid) of
                  Some err \<Rightarrow> (Inl err, [m], [MarkSent eid], invite)
                | None \<Rightarrow> (Inr eid, [m], [MarkSent eid], apply_update (MarkSent eid) invite))))))"

text \<open>The handler, lines 35-122, for an event that carries the invite document (an event
  without data returns \<open>null\<close> at line 39); the \<open>catch\<close> block is the second branch of
  the last case. \<open>doc\<close> is the invite document after the handler, given that it was the
  snapshot before.\<close>

definition sendInviteEmail :: "env \<Rightarrow> invite \<Rightarrow> invite_outcome" where
  "sendInviteEmail e invite =
     (if status invite \<noteq> Str ''pending'' then \<lparr>result = ReturnNull, sent = [], writes = [], doc = invite\<rparr>
      else if truthy (emailSent invite) then \<lparr>result = ReturnNull, sent = [], writes = [], doc = invite\<rparr>
      else
        (case invite_try e invite of
           (Inr eid, ms, ws, d) \<Rightarrow> \<lparr>result = SuccessId eid, sent = ms, writes = ws, doc = d\<rparr>
         | (Inl msg, ms, ws, d) \<Rightarrow>
             (case update e (MarkFailed msg) of
                Some err \<Rightarrow>
                  \<lparr>result = Rejected err, sent = ms, writes = ws @ [MarkFailed msg], doc = d\<rparr>
              | None \<Rightarrow>
                  \<lparr>result = Failure msg, sent = ms, writes = ws @ [MarkFailed msg],
                   doc = apply_update (MarkFailed msg) d\<rparr>)))"

subsection \<open>sendTaskAssignedEmail\<close>

text \<open>Lines 244-329. The client is built at line 298; \<open>generateTaskAssignedHtml\<close> is
  called while the argument of the delivery call is built and calls \<open>priority.charAt\<close>
  (line 589). The description is only read when it is a non-empty string (line 586).\<close>

definition sendTaskAssignedEmail ::
  "env \<Rightarrow> string \<Rightarrow> string \<Rightarrow> task \<Rightarrow> task \<Rightarrow> handler_result \<times> mail list" where
  "sendTaskAssignedEmail e tenantId projectId before after =
     (if assignedTo before = assignedTo after then (ReturnNull, [])
      else if \<not> truthy_field (assignedTo after) then (ReturnNull, [])
      else
        (case users e (case assignedTo after of Str uid \<Rightarrow> uid | _ \<Rightarrow> []) of
           Inl err \<Rightarrow> (Failure err, [])
         | Inr None \<Rightarrow> (ReturnNull, [])
         | Inr (Some u) \<Rightarrow>
             (if preference_disabled u TaskAssigned then (ReturnNull, [])
              else
                (case projectDoc e tenantId projectId of
                   Inl err \<Rightarrow> (Failure err, [])
                 | Inr pd \<Rightarrow>
                     (case tenantDoc e tenantId of
                        Inl err \<Rightarrow> (Failure err, [])
                      | Inr td \<Rightarrow>
                          (let p = (case pd of Some x \<Rightarrow> x | None \<Rightarrow> \<lparr>title = Str ''Unknown Project''\<rparr>);
                               tn = (case td of Some x \<Rightarrow> x
                                     | None \<Rightarrow> \<lparr>tenant_name = Str ''Unknown Organization'', slug = Undefined\<rparr>)
                           in case display_name e (updatedBy after) (Str ''Someone'') of
                                Inl err \<Rightarrow> (Failure err, [])
                              | Inr assignerName \<Rightarrow>
                                  (case newResend e of
                                     Some err \<Rightarrow> (Failure err, [])
                                   | None \<Rightarrow>
                                  (case charAt_receiver (priority after) of
                                     Inl err \<Rightarrow> (Failure err, [])
                                   | Inr pr \<Rightarrow>
                                  (let m = \<lparr>to = email u,
                                            content = TaskAssignedMail (taskTitle after) (description after)
                                                        (title p) (tenant_name tn) assignerName pr
                                                        (dueDate after)\<rparr>
                                   in case send e m of
                                        SendRaises err \<Rightarrow> (Failure err, [m])
                                      | _ \<Rightarrow> (Success, [m]))))))))))"

subsection \<open>sendCommentNotification\<close>

text \<open>The loop of lines 500-530 over \<open>usersToNotify\<close>; \<open>acc\<close> holds the delivery calls
  made so far. The first component is the error that left the loop, if any.\<close>

fun notify_users :: "env \<Rightarrow> (user \<Rightarrow> mail) \<Rightarrow> string list \<Rightarrow> mail list \<Rightarrow> string option \<times> mail list" where
  "notify_users e mk [] acc = (None, acc)"
| "notify_users e mk (userId # rest) acc =
     (case users e userId of
        Inl err \<Rightarrow> (Some err, acc)
      | Inr None \<Rightarrow> notify_users e mk rest acc
      | Inr (Some u) \<Rightarrow>
          (if preference_disabled u Comments then notify_users e mk rest acc
           else (case send e (mk u) of
                   SendRaises err \<Rightarrow> (Some err, acc @ [mk u])
                 | _ \<Rightarrow> notify_users e mk rest (acc @ [mk u]))))"

definition comment_mail :: "task \<Rightarrow> project \<Rightarrow> tenant \<Rightarrow> field \<Rightarrow> comment \<Rightarrow> user \<Rightarrow> mail" where
  "comment_mail t p tn commenterName c u =
     \<lparr>to = email u,
      content = CommentMail (taskTitle t) (title p) (tenant_name tn) commenterName
                  (replace_mentions (commentText c))\<rparr>"



subsection \<open>sendDueDateReminders\<close>

text \<open>
  Lines 343-348. Instants are milliseconds since the epoch, and the local time of the
  runtime is UTC plus \<open>utcOffset\<close>, the same from today to the day after tomorrow (no
  change of daylight saving in between). \<open>new Date(year, month, date)\<close> of the local date
  of \<open>now\<close> is the local midnight before \<open>now\<close>, and \<open>setDate(getDate() + 2)\<close> moves it
  on by two days. \<open>tomorrow\<close> (lines 345-346) is not used by the handler.
\<close>

definition ms_per_day :: int where
  "ms_per_day = 86400000"

definition today_of :: "int \<Rightarrow> int \<Rightarrow> int" where
  "today_of offset now = now - (now + offset) mod ms_per_day"

definition dayAfterTomorrow_of :: "int \<Rightarrow> int \<Rightarrow> int" where
  "dayAfterTomorrow_of offset now = today_of offset now + 2 * ms_per_day"

text \<open>
  The query of lines 368-375 keeps the tasks whose \<open>dueDate\<close> is a timestamp \<open>d\<close> with
  \<open>today \<le> d < dayAfterTomorrow\<close> and whose \<open>status\<close> is not \<open>"done"\<close>.
\<close>

definition due_query :: "int \<Rightarrow> int \<Rightarrow> (string \<times> task) list \<Rightarrow> (string \<times> task) list" where
  "due_query today dayAfterTomorrow docs =
     filter (\<lambda>(taskId, t).
               (case dueDate t of None \<Rightarrow> False | Some d \<Rightarrow> today \<le> d \<and> d < dayAfterTomorrow)
               \<and> taskStatus t \<noteq> ''done'') docs"

text \<open>
  \<open>tasksByAssignee\<close> is a plain object used as a map from user identifiers to arrays: an
  association list in the order in which the keys were first written. Reading a key that
  \<open>Object.prototype\<close> defines gives the inherited value, which is truthy and has no
  \<open>push\<close>, so line 385 throws a \<open>TypeError\<close> for such an identifier.
\<close>

definition inherited_keys :: "string list" where
  "inherited_keys =
     [''constructor'', ''__proto__'', ''hasOwnProperty'', ''isPrototypeOf'',
      ''propertyIsEnumerable'', ''toLocaleString'', ''toString'', ''valueOf'',
      ''__defineGetter__'', ''__defineSetter__'', ''__lookupGetter__'', ''__lookupSetter__'']"

fun push :: "string \<Rightarrow> 'a \<Rightarrow> (string \<times> 'a list) list \<Rightarrow> (string \<times> 'a list) list" where
  "push k v [] = [(k, [v])]"
| "push k v ((k', vs) # m) = (if k = k' then (k', vs @ [v]) # m else (k', vs) # push k v m)"

text \<open>The object pushed at lines 385-390 for the task document \<open>d\<close>.\<close>

definition digest_entry :: "string \<Rightarrow> project \<Rightarrow> string \<times> task \<Rightarrow> digest_task" where
  "digest_entry projectId p d =
     \<lparr>dt_task = snd d, dt_id = fst d, dt_projectTitle = title p, dt_projectId = projectId\<rparr>"

text \<open>The callback of \<open>forEach\<close>, lines 379-392.\<close>

definition group_task ::
  "string \<Rightarrow> project \<Rightarrow> string \<times> task \<Rightarrow> (string \<times> digest_task list) list
     \<Rightarrow> string + (string \<times> digest_task list) list" where
  "group_task projectId p d tasksByAssignee =
     (case assignedTo (snd d) of
        Str a \<Rightarrow>
          (if a = [] then Inr tasksByAssignee
           else if a \<in> set inherited_keys
             then Inl ''tasksByAssignee[task.assignedTo].push is not a function''
           else Inr (push a (digest_entry projectId p d) tasksByAssignee))
      | _ \<Rightarrow> Inr tasksByAssignee)"

fun group_tasks ::
  "string \<Rightarrow> project \<Rightarrow> (string \<times> task) list \<Rightarrow> (string \<times> digest_task list) list
     \<Rightarrow> string + (string \<times> digest_task list) list" where
  "group_tasks projectId p [] tasksByAssignee = Inr tasksByAssignee"
| "group_tasks projectId p (d # ds) tasksByAssignee =
     (case group_task projectId p d tasksByAssignee of
        Inl err \<Rightarrow> Inl err
      | Inr m \<Rightarrow> group_tasks projectId p ds m)"

text \<open>
  \<open>Object.entries\<close> lists the keys that are array indices (canonical decimal numerals
  below \<open>2\<^sup>3\<^sup>2 - 1\<close>) first, in ascending numeric order, and the other keys after them
  in the order of creation.
\<close>

definition index_value :: "string \<Rightarrow> nat" where
  "index_value k = foldl (\<lambda>n c. 10 * n + (of_char c - 48)) 0 k"

definition is_array_index :: "string \<Rightarrow> bool" where
  "is_array_index k =
     (k \<noteq> [] \<and> list_all (\<lambda>c. c \<in> set ''0123456789'') k
      \<and> (k = ''0'' \<or> hd k \<noteq> CHR ''0'') \<and> index_value k < 4294967295)"

definition object_entries :: "(string \<times> 'a) list \<Rightarrow> (string \<times> 'a) list" where
  "object_entries m =
     sort_key (\<lambda>kv. index_value (fst kv)) (filter (\<lambda>kv. is_array_index (fst kv)) m)
     @ filter (\<lambda>kv. \<not> is_array_index (fst kv)) m"

definition digest_mail :: "tenant \<Rightarrow> user \<Rightarrow> digest_task list \<Rightarrow> mail" where
  "digest_mail tn u tasks =
     \<lparr>to = email u,
      content = DueReminderMail (or_else (name u) (Str ''there'')) (tenant_name tn) (slug tn) tasks\<rparr>"

text \<open>The loop of lines 395-423 over the entries of \<open>tasksByAssignee\<close>; the client is
  built at line 404, for every user who gets a digest.\<close>

fun send_digests ::
  "env \<Rightarrow> tenant \<Rightarrow> (string \<times> digest_task list) list \<Rightarrow> mail list \<Rightarrow> string option \<times> mail list" where
  "send_digests e tn [] acc = (None, acc)"
| "send_digests e tn ((userId, tasks) # rest) acc =
     (case users e userId of
        Inl err \<Rightarrow> (Some err, acc)
      | Inr None \<Rightarrow> send_digests e tn rest acc
      | Inr (Some u) \<Rightarrow>
          (if preference_disabled u DueReminders then send_digests e tn rest acc
           else (case newResend e of
                   Some err \<Rightarrow> (Some err, acc)
                 | None \<Rightarrow>
                (case send e (digest_mail tn u tasks) of
                   SendRaises err \<Rightarrow> (Some err, acc @ [digest_mail tn u tasks])
                 | _ \<Rightarrow> send_digests e tn rest (acc @ [digest_mail tn u tasks])))))"

text \<open>The body of the loop over the projects of a tenant, lines 364-423.\<close>

definition project_reminders ::
  "env \<Rightarrow> int \<Rightarrow> int \<Rightarrow> string \<Rightarrow> tenant \<Rightarrow> string \<times> project \<Rightarrow> mail list
     \<Rightarrow> string option \<times> mail list" where
  "project_reminders e today dayAfterTomorrow tenantId tn pd acc =
     (case tasksCollection e tenantId (fst pd) of
        Inl err \<Rightarrow> (Some err, acc)
      | Inr docs \<Rightarrow>
          (case group_tasks (fst pd) (snd pd) (due_query today dayAfterTomorrow docs) [] of
             Inl err \<Rightarrow> (Some err, acc)
           | Inr tasksByAssignee \<Rightarrow> send_digests e tn (object_entries tasksByAssignee) acc))"

fun projects_loop ::
  "env \<Rightarrow> int \<Rightarrow> int \<Rightarrow> string \<Rightarrow> tenant \<Rightarrow> (string \<times> project) list \<Rightarrow> mail list
     \<Rightarrow> string option \<times> mail list" where
  "projects_loop e today dayAfterTomorrow tenantId tn [] acc = (None, acc)"
| "projects_loop e today dayAfterTomorrow tenantId tn (pd # pds) acc =
     (case project_reminders e today dayAfterTomorrow tenantId tn pd acc of
        (Some err, acc') \<Rightarrow> (Some err, acc')
      | (None, acc') \<Rightarrow> projects_loop e today dayAfterTomorrow tenantId tn pds acc')"

text \<open>The loop over the tenants, lines 354-425.\<close>

fun tenants_loop ::
  "env \<Rightarrow> int \<Rightarrow> int \<Rightarrow> (string \<times> tenant) list \<Rightarrow> mail list \<Rightarrow> string option \<times> mail list" where
  "tenants_loop e today dayAfterTomorrow [] acc = (None, acc)"
| "tenants_loop e today dayAfterTomorrow (td # tds) acc =
     (case projectsSnapshot e (fst td) of
        Inl err \<Rightarrow> (Some err, acc)
      | Inr pds \<Rightarrow>
          (case projects_loop e today dayAfterTomorrow (fst td) (snd td) pds acc of
             (Some err, acc') \<Rightarrow> (Some err, acc')
           | (None, acc') \<Rightarrow> tenants_loop e today dayAfterTomorrow tds acc'))"

text \<open>The handler, lines 342-432, run at the instant \<open>now\<close>.\<close>

definition sendDueDateReminders :: "env \<Rightarrow> int \<Rightarrow> handler_result \<times> mail list" where
  "sendDueDateReminders e now =
     (let today = today_of (utcOffset e) now;
          dayAfterTomorrow = dayAfterTomorrow_of (utcOffset e) now
      in case tenantsSnapshot e of
           Inl err \<Rightarrow> (Failure err, [])
         | Inr tds \<Rightarrow>
             (case tenants_loop e today dayAfterTomorrow tds [] of
                (Some err, ms) \<Rightarrow> (Failure err, ms)
              | (None, ms) \<Rightarrow> (Success, ms)))"

subsection \<open>Mention markup, preferences of an environment, and sample data\<close>

text \<open>The text that a sequence of characters and mentions stands for, each mention
  written \<open>@[label](userId)\<close>.\<close>

fun markup :: "piece list \<Rightarrow> string" where
  "markup [] = []"
| "markup (Lit c # ps) = c # markup ps"
| "markup (Mention label uid # ps) = ''@['' @ label @ '']('' @ uid @ '')'' @ markup ps"

text \<open>A sequence in which every label is non-empty without \<open>]\<close>, every identifier is
  non-empty without \<open>)\<close>, and no character \<open>@\<close> is followed by the character \<open>[\<close>.\<close>

fun well_formed :: "piece list \<Rightarrow> bool" where
  "well_formed [] = True"
| "well_formed (Lit c # ps) =
     ((c = CHR ''@'' \<longrightarrow> (case ps of Lit d # qs \<Rightarrow> d \<noteq> CHR ''['' | _ \<Rightarrow> True)) \<and> well_formed ps)"
| "well_formed (Mention label uid # ps) =
     (label \<noteq> [] \<and> CHR '']'' \<notin> set label \<and> uid \<noteq> [] \<and> CHR '')'' \<notin> set uid \<and> well_formed ps)"

text \<open>The environment in which every user record has its \<open>emailPreferences\<close> replaced.\<close>

definition with_preferences :: "(string \<Rightarrow> jsval) \<Rightarrow> env \<Rightarrow> env" where
  "with_preferences f e =
     e\<lparr>users := (\<lambda>uid. case users e uid of
                         Inl err \<Rightarrow> Inl err
                       | Inr None \<Rightarrow> Inr None
                       | Inr (Some u) \<Rightarrow> Inr (Some (u\<lparr>emailPreferences := f uid\<rparr>)))\<rparr>"

definition ann :: user where
  "ann = \<lparr>name = Str ''Ann'', email = Str ''ann@yet.lu'', emailPreferences = JUndefined\<rparr>"

definition bob :: user where
  "bob = \<lparr>name = Undefined, email = Str ''bob@yet.lu'',
          emailPreferences = JObj [(''comments'', JBool True)]\<rparr>"

definition healthy :: env where
  "healthy =
     \<lparr>users = (\<lambda>uid. if uid = ''u1'' then Inr (Some ann)
                     else if uid = ''u2'' then Inr (Some bob) else Inr None),
      tenantDoc = (\<lambda>tenantId. Inr (Some \<lparr>tenant_name = Str ''Acme'', slug = Str ''acme''\<rparr>)),
      projectDoc = (\<lambda>tenantId projectId. Inr (Some \<lparr>title = Str ''Site''\<rparr>)),
      taskDoc = (\<lambda>tenantId projectId taskId. Inr None),
      tenantsSnapshot = Inr [],
      projectsSnapshot = (\<lambda>tenantId. Inr []),
      tasksCollection = (\<lambda>tenantId projectId. Inr []),
      newResend = None,
      send = (\<lambda>m. SendOk ''e1''),
      update = (\<lambda>w. None),
      utcOffset = 3600000\<rparr>"

definition pending_invite :: invite where
  "pending_invite =
     \<lparr>status = Str ''pending'', emailSent = JBool False, invitedBy = Str ''u1'',
      role = Str ''member'', inviteEmail = Str ''new@yet.lu'', tenantName = Str ''Acme'', emailSentAt = NoTimestamp,
      emailId = Undefined, emailError = Undefined, emailAttemptedAt = NoTimestamp\<rparr>"

definition unassigned_task :: task where
  "unassigned_task =
     \<lparr>taskTitle = Str ''Write report'', description = Undefined, priority = Str ''high'',
      assignedTo = Null, updatedBy = Str ''u1'', dueDate = None, taskStatus = ''todo''\<rparr>"

subsection \<open>Auxiliary definitions for the reminder run\<close>

text \<open>The entries pushed for the assignee \<open>k\<close> from the given task documents, in order.\<close>

definition assignee_tasks :: "string \<Rightarrow> project \<Rightarrow> string \<Rightarrow> (string \<times> task) list \<Rightarrow> digest_task list" where
  "assignee_tasks projectId p k docs =
     map (digest_entry projectId p) (filter (\<lambda>d. assignedTo (snd d) = Str k) docs)"

text \<open>The users among the given identifiers whose record exists and allows the category.\<close>

fun eligible :: "env \<Rightarrow> category \<Rightarrow> string list \<Rightarrow> (string \<times> user) list" where
  "eligible e c [] = []"
| "eligible e c (k # ks) =
     (case users e k of
        Inr (Some u) \<Rightarrow> (if preference_disabled u c then eligible e c ks else (k, u) # eligible e c ks)
      | _ \<Rightarrow> eligible e c ks)"

text \<open>The digests of the given entries whose user exists and allows reminders.\<close>

fun digest_mails :: "env \<Rightarrow> tenant \<Rightarrow> (string \<times> digest_task list) list \<Rightarrow> mail list" where
  "digest_mails e tn [] = []"
| "digest_mails e tn ((k, ts) # es) =
     (case users e k of
        Inr (Some u) \<Rightarrow>
          (if preference_disabled u DueReminders then digest_mails e tn es
           else digest_mail tn u ts # digest_mails e tn es)
      | _ \<Rightarrow> digest_mails e tn es)"

text \<open>The addresses of the users who are assignee of a task returned by the query of a
  project, exist and allow reminders; and the same over the projects of a tenant.\<close>

definition project_recipients :: "env \<Rightarrow> int \<Rightarrow> int \<Rightarrow> string \<Rightarrow> string \<Rightarrow> field set" where
  "project_recipients e today dat tenantId projectId =
     {email u |u k. (\<exists>docs. tasksCollection e tenantId projectId = Inr docs \<and> k \<noteq> []
                       \<and> (\<exists>d \<in> set (due_query today dat docs). assignedTo (snd d) = Str k))
        \<and> users e k = Inr (Some u) \<and> \<not> preference_disabled u DueReminders}"

definition tenant_recipients :: "env \<Rightarrow> int \<Rightarrow> int \<Rightarrow> string \<Rightarrow> field set" where
  "tenant_recipients e today dat tenantId =
     {r. \<exists>pds pd. projectsSnapshot e tenantId = Inr pds \<and> pd \<in> set pds
           \<and> r \<in> project_recipients e today dat tenantId (fst pd)}"

text \<open>The addresses of the existing users who allow reminders and are the non-empty assignee
  of a task of some project of some tenant that is due from \<open>today\<close> until before
  \<open>dayAfterTomorrow\<close> and is not done.\<close>

definition due_recipients :: "env \<Rightarrow> int \<Rightarrow> int \<Rightarrow> field set" where
  "due_recipients e today dayAfterTomorrow =
     {email u |u k tds tenantId tn pds projectId p docs taskId t due.
        tenantsSnapshot e = Inr tds \<and> (tenantId, tn) \<in> set tds
        \<and> projectsSnapshot e tenantId = Inr pds \<and> (projectId, p) \<in> set pds
        \<and> tasksCollection e tenantId projectId = Inr docs \<and> (taskId, t) \<in> set docs
        \<and> dueDate t = Some due \<and> today \<le> due \<and> due < dayAfterTomorrow \<and> taskStatus t \<noteq> ''done''
        \<and> assignedTo t = Str k \<and> k \<noteq> []
        \<and> users e k = Inr (Some u) \<and> \<not> preference_disabled u DueReminders}"

definition acme :: tenant where
  "acme = \<lparr>tenant_name = Str ''Acme'', slug = Str ''acme''\<rparr>"

definition due_task :: "string \<Rightarrow> int \<Rightarrow> task" where
  "due_task a d =
     \<lparr>taskTitle = Str ''Report'', description = Undefined, priority = Str ''low'',
      assignedTo = Str a, updatedBy = Undefined, dueDate = Some d, taskStatus = ''todo''\<rparr>"

text \<open>One tenant with one project holding three tasks: two of \<open>u1\<close>, one of \<open>u2\<close>.
  The runs are made at \<open>now = 25200000\<close> with \<open>utcOffset = 3600000\<close> (08:00 local time),
  so that \<open>today = -3600000\<close> and \<open>dayAfterTomorrow = 169200000\<close>; the tasks are due at
  noon today (\<open>39600000\<close>) and at noon tomorrow (\<open>126000000\<close>).\<close>

definition one_project :: env where
  "one_project =
     healthy\<lparr>tenantsSnapshot := Inr [(''t1'', acme)],
             projectsSnapshot := (\<lambda>tenantId. Inr [(''p1'', \<lparr>title = Str ''Site''\<rparr>)]),
             tasksCollection := (\<lambda>tenantId projectId.
               Inr [(''k1'', due_task ''u1'' 39600000), (''k2'', due_task ''u1'' 126000000),
                    (''k3'', due_task ''u2'' 39600000)])\<rparr>"

text \<open>One tenant with two projects, each holding one task of \<open>u1\<close>.\<close>

definition two_projects :: env where
  "two_projects =
     healthy\<lparr>tenantsSnapshot := Inr [(''t1'', acme)],
             projectsSnapshot := (\<lambda>tenantId. Inr [(''p1'', \<lparr>title = Str ''Site''\<rparr>),
                                                  (''p2'', \<lparr>title = Str ''Shop''\<rparr>)]),
             tasksCollection := (\<lambda>tenantId projectId.
               if projectId = ''p1'' then Inr [(''k1'', due_task ''u1'' 39600000)]
               else Inr [(''k2'', due_task ''u1'' 126000000)])\<rparr>"

text \<open>The first environment with tasks that the query leaves out, or that have no
  assignee: only \<open>k1\<close>, due at \<open>today\<close>, counts (\<open>k3\<close> is due at \<open>dayAfterTomorrow\<close>, \<open>k6\<close>
  one millisecond before \<open>today\<close>).\<close>

definition mixed_tasks :: env where
  "mixed_tasks =
     one_project\<lparr>tasksCollection := (\<lambda>tenantId projectId.
       Inr [(''k1'', due_task ''u1'' (- 3600000)),
            (''k2'', (due_task ''u2'' 39600000)\<lparr>taskStatus := ''done''\<rparr>),
            (''k3'', due_task ''u2'' 169200000),
            (''k4'', due_task [] 39600000),
            (''k5'', (due_task ''u2'' 39600000)\<lparr>dueDate := None\<rparr>),
            (''k6'', due_task ''u2'' (- 3600001)),
            (''k7'', (due_task ''u2'' 39600000)\<lparr>assignedTo := Null\<rparr>)])\<rparr>"

text \<open>The first environment in which the lookup of user \<open>u1\<close> rejects.\<close>

definition lookup_fails :: env where
  "lookup_fails =
     one_project\<lparr>users := (\<lambda>uid. if uid = ''u1'' then Inl ''unavailable'' else users one_project uid)\<rparr>"

text \<open>A task assigned to \<open>u1\<close>, and a comment of \<open>u3\<close> on it that mentions \<open>u2\<close>.\<close>

definition commented_task :: task where
  "commented_task = unassigned_task\<lparr>assignedTo := Str ''u1''\<rparr>"

definition ping :: comment where
  "ping = \<lparr>commentText = ''@[Bob](u2) hi'', createdBy = Str ''u3''\<rparr>"


section \<open>Properties\<close>

subsection \<open>Preference gate\<close>

lemma optional_member_False_iff:
  "optional_member v c = JBool False \<longleftrightarrow>
     (\<exists>fs. v = JObj fs \<and> map_of fs (category_name c) = Some (JBool False))"
  by (cases v) (auto split: option.splits)

text \<open>
  C5. For every user record, the gate denies the category \<open>taskAssigned\<close>,
  \<open>dueReminders\<close> or \<open>comments\<close> if and only if \<open>emailPreferences\<close> is an object whose
  field of that name is \<open>false\<close>; with the preferences missing or \<open>null\<close> the user is
  allowed, and so is a user whose field is absent, \<open>null\<close> or any other value. A user for
  whom the gate denies the category gets no delivery call from the handler of that
  category: the assignment handler sends nothing, and the loops of the comment and of the
  reminder handler pass on to the next recipient.
\<close>

theorem preference_gate_denies_iff:
  "(preference_disabled u TaskAssigned \<longleftrightarrow>
      (\<exists>fs. emailPreferences u = JObj fs \<and> map_of fs ''taskAssigned'' = Some (JBool False)))
   \<and> (preference_disabled u DueReminders \<longleftrightarrow>
      (\<exists>fs. emailPreferences u = JObj fs \<and> map_of fs ''dueReminders'' = Some (JBool False)))
   \<and> (preference_disabled u Comments \<longleftrightarrow>
      (\<exists>fs. emailPreferences u = JObj fs \<and> map_of fs ''comments'' = Some (JBool False)))
   \<and> (emailPreferences u = JUndefined \<or> emailPreferences u = JNull \<longrightarrow> \<not> preference_disabled u c)
   \<and> (preference_disabled u TaskAssigned \<and> assignedTo after = Str uid \<and> users e uid = Inr (Some u) \<longrightarrow>
        snd (sendTaskAssignedEmail e tenantId projectId before after) = [])
   \<and> (preference_disabled u Comments \<and> users e k = Inr (Some u) \<longrightarrow>
        notify_users e mk (k # rest) acc = notify_users e mk rest acc)
   \<and> (preference_disabled u DueReminders \<and> users e k = Inr (Some u) \<longrightarrow>
        send_digests e tn ((k, ts) # rest') acc = send_digests e tn rest' acc)"
proof -
  have 1: "preference_disabled u TaskAssigned \<longleftrightarrow>
      (\<exists>fs. emailPreferences u = JObj fs \<and> map_of fs ''taskAssigned'' = Some (JBool False))"
    by (simp add: preference_disabled_def optional_member_False_iff)
  have 2: "preference_disabled u DueReminders \<longleftrightarrow>
      (\<exists>fs. emailPreferences u = JObj fs \<and> map_of fs ''dueReminders'' = Some (JBool False))"
    by (simp add: preference_disabled_def optional_member_False_iff)
  have 3: "preference_disabled u Comments \<longleftrightarrow>
      (\<exists>fs. emailPreferences u = JObj fs \<and> map_of fs ''comments'' = Some (JBool False))"
    by (simp add: preference_disabled_def optional_member_False_iff)
  have 4: "emailPreferences u = JUndefined \<or> emailPreferences u = JNull \<longrightarrow> \<not> preference_disabled u c"
    by (auto simp: preference_disabled_def)
  have 5: "preference_disabled u TaskAssigned \<and> assignedTo after = Str uid \<and> users e uid = Inr (Some u) \<longrightarrow>
        snd (sendTaskAssignedEmail e tenantId projectId before after) = []"
    by (simp add: sendTaskAssignedEmail_def)
  have 6: "preference_disabled u Comments \<and> users e k = Inr (Some u) \<longrightarrow>
        notify_users e mk (k # rest) acc = notify_users e mk rest acc"
    by simp
  have 7: "preference_disabled u DueReminders \<and> users e k = Inr (Some u) \<longrightarrow>
        send_digests e tn ((k, ts) # rest') acc = send_digests e tn rest' acc"
    by simp
  from 1 2 3 4 5 6 7 show ?thesis by blast
qed

text \<open>The three categories with the field \<open>false\<close>, then the values for which the user is
  allowed, then the assignment of a task to a user who has disabled \<open>taskAssigned\<close>, a
  comment for a user who has disabled \<open>comments\<close> and a digest for a user who has disabled
  \<open>dueReminders\<close>.\<close>

theorem preference_gate_denies_iff_witness:
  "preference_disabled (ann\<lparr>emailPreferences := JObj [(''taskAssigned'', JBool False)]\<rparr>) TaskAssigned
   \<and> preference_disabled (ann\<lparr>emailPreferences := JObj [(''dueReminders'', JBool False)]\<rparr>) DueReminders
   \<and> preference_disabled (ann\<lparr>emailPreferences := JObj [(''comments'', JBool False)]\<rparr>) Comments
   \<and> \<not> preference_disabled (ann\<lparr>emailPreferences := JObj [(''comments'', JBool False)]\<rparr>) TaskAssigned
   \<and> \<not> preference_disabled (ann\<lparr>emailPreferences := JObj [(''taskAssigned'', JBool False)]\<rparr>) DueReminders
   \<and> \<not> preference_disabled ann TaskAssigned
   \<and> \<not> preference_disabled (ann\<lparr>emailPreferences := JNull\<rparr>) DueReminders
   \<and> \<not> preference_disabled (ann\<lparr>emailPreferences := JObj [(''comments'', JNull)]\<rparr>) Comments
   \<and> \<not> preference_disabled (ann\<lparr>emailPreferences := JObj [(''comments'', JNum 0)]\<rparr>) Comments
   \<and> \<not> preference_disabled (ann\<lparr>emailPreferences := JStr ''no''\<rparr>) Comments
   \<and> \<not> preference_disabled bob Comments
   \<and> snd (sendTaskAssignedEmail
        (healthy\<lparr>users := \<lambda>uid. Inr (Some (ann\<lparr>emailPreferences := JObj [(''taskAssigned'', JBool False)]\<rparr>))\<rparr>)
        ''t1'' ''p1'' unassigned_task (unassigned_task\<lparr>assignedTo := Str ''u9''\<rparr>)) = []
   \<and> notify_users
        (healthy\<lparr>users := \<lambda>uid. Inr (Some (ann\<lparr>emailPreferences := JObj [(''comments'', JBool False)]\<rparr>))\<rparr>)
        (comment_mail commented_task \<lparr>title = Str ''Site''\<rparr> acme (Str ''Someone'') ping) [''u9''] []
       = (None, [])
   \<and> send_digests
        (healthy\<lparr>users := \<lambda>uid. Inr (Some (ann\<lparr>emailPreferences := JObj [(''dueReminders'', JBool False)]\<rparr>))\<rparr>)
        acme [(''u9'', [])] []
       = (None, [])"
proof -
  let ?off = "\<lambda>n. ann\<lparr>emailPreferences := JObj [(n, JBool False)]\<rparr>"
  let ?e = "healthy\<lparr>users := \<lambda>uid. Inr (Some (?off ''taskAssigned''))\<rparr>"
  have a: "emailPreferences ann = JUndefined" "emailPreferences (ann\<lparr>emailPreferences := JNull\<rparr>) = JNull"
    by (simp_all add: ann_def)
  have b: "assignedTo (unassigned_task\<lparr>assignedTo := Str ''u9''\<rparr>) = Str ''u9''"
    "users ?e ''u9'' = Inr (Some (?off ''taskAssigned''))"
    by simp_all
  have 1: "preference_disabled (?off ''taskAssigned'') TaskAssigned"
    "\<not> preference_disabled (?off ''taskAssigned'') DueReminders"
    using preference_gate_denies_iff [where u = "?off ''taskAssigned''"] by simp_all
  have 2: "preference_disabled (?off ''dueReminders'') DueReminders"
    using preference_gate_denies_iff [where u = "?off ''dueReminders''"] by simp
  have 3: "preference_disabled (?off ''comments'') Comments"
    "\<not> preference_disabled (?off ''comments'') TaskAssigned"
    using preference_gate_denies_iff [where u = "?off ''comments''"] by simp_all
  have 4: "\<not> preference_disabled ann TaskAssigned"
    using preference_gate_denies_iff [where u = ann and c = TaskAssigned] a by blast
  have 5: "\<not> preference_disabled (ann\<lparr>emailPreferences := JNull\<rparr>) DueReminders"
    using preference_gate_denies_iff [where u = "ann\<lparr>emailPreferences := JNull\<rparr>" and c = DueReminders] a by blast
  have 6: "\<not> preference_disabled (ann\<lparr>emailPreferences := JObj [(''comments'', JNull)]\<rparr>) Comments"
    using preference_gate_denies_iff [where u = "ann\<lparr>emailPreferences := JObj [(''comments'', JNull)]\<rparr>"] by simp
  have 7: "\<not> preference_disabled (ann\<lparr>emailPreferences := JObj [(''comments'', JNum 0)]\<rparr>) Comments"
    using preference_gate_denies_iff [where u = "ann\<lparr>emailPreferences := JObj [(''comments'', JNum 0)]\<rparr>"] by simp
  have 8: "\<not> preference_disabled (ann\<lparr>emailPreferences := JStr ''no''\<rparr>) Comments"
    using preference_gate_denies_iff [where u = "ann\<lparr>emailPreferences := JStr ''no''\<rparr>"] by simp
  have 9: "\<not> preference_disabled bob Comments"
    using preference_gate_denies_iff [where u = bob] by (simp add: bob_def)
  have 10: "snd (sendTaskAssignedEmail ?e ''t1'' ''p1'' unassigned_task
                  (unassigned_task\<lparr>assignedTo := Str ''u9''\<rparr>)) = []"
    using preference_gate_denies_iff [where u = "?off ''taskAssigned''"
        and after = "unassigned_task\<lparr>assignedTo := Str ''u9''\<rparr>" and uid = "''u9''" and e = ?e] 1(1) b by blast
  let ?ec = "healthy\<lparr>users := \<lambda>uid. Inr (Some (?off ''comments''))\<rparr>"
  let ?ed = "healthy\<lparr>users := \<lambda>uid. Inr (Some (?off ''dueReminders''))\<rparr>"
  let ?mk = "comment_mail commented_task \<lparr>title = Str ''Site''\<rparr> acme (Str ''Someone'') ping"
  have c: "users ?ec ''u9'' = Inr (Some (?off ''comments''))"
    "users ?ed ''u9'' = Inr (Some (?off ''dueReminders''))"
    by simp_all
  have "notify_users ?ec ?mk (''u9'' # []) [] = notify_users ?ec ?mk [] []"
    using preference_gate_denies_iff [where u = "?off ''comments''" and e = ?ec and k = "''u9''"
        and mk = ?mk and rest = "[]" and acc = "[]"] 3(1) c(1) by blast
  then have 11: "notify_users ?ec ?mk [''u9''] [] = (None, [])"
    by (simp only: notify_users.simps)
  have "send_digests ?ed acme ((''u9'', []) # []) [] = send_digests ?ed acme [] []"
    using preference_gate_denies_iff [where u = "?off ''dueReminders''" and e = ?ed and k = "''u9''"
        and tn = acme and ts = "[]" and rest' = "[]" and acc = "[]"] 2 c(2) by blast
  then have 12: "send_digests ?ed acme [(''u9'', [])] [] = (None, [])"
    by (simp only: send_digests.simps)
  from 1 2 3 4 5 6 7 8 9 10 11 12 show ?thesis by blast
qed

subsection \<open>Recipients of a comment\<close>

lemma set_add_set [simp]: "set (set_add x xs) = insert x (set xs)"
  by (auto simp: set_add_def)

lemma set_add_distinct [simp]: "distinct (set_add x xs) = distinct xs"
  by (auto simp: set_add_def)

lemma add_mentions_fold:
  "foldl (\<lambda>acc (label, mentionedUserId).
              if Str mentionedUserId \<noteq> author then set_add mentionedUserId acc else acc) us ms
   = foldl (\<lambda>acc u. set_add u acc) us (filter (\<lambda>u. Str u \<noteq> author) (map snd ms))"
  by (induction ms arbitrary: us) (auto split: prod.splits)

lemma fold_set_add_set [simp]: "set (foldl (\<lambda>acc u. set_add u acc) us xs) = set us \<union> set xs"
  by (induction xs arbitrary: us) auto

lemma fold_set_add_distinct [simp]: "distinct (foldl (\<lambda>acc u. set_add u acc) us xs) = distinct us"
  by (induction xs arbitrary: us) auto

lemma fold_set_add_order:
  "foldl (\<lambda>acc u. set_add u acc) [] xs = rev (remdups (rev xs))"
proof (induction xs rule: rev_induct)
  case Nil
  show ?case by simp
next
  case (snoc x xs)
  have "set (rev (remdups (rev xs))) = set xs" by simp
  with snoc show ?case by (auto simp: set_add_def)
qed

lemma add_mentions_set:
  "set (add_mentions author txt us) = set us \<union> {u \<in> snd ` set (exec_all (scan txt)). Str u \<noteq> author}"
  by (auto simp: add_mentions_def add_mentions_fold)

lemma add_mentions_distinct: "distinct (add_mentions author txt us) = distinct us"
  by (simp add: add_mentions_def add_mentions_fold)

lemma add_mentions_order:
  "add_mentions author txt [] =
     rev (remdups (rev (filter (\<lambda>u. Str u \<noteq> author) (map snd (exec_all (scan txt))))))"
  by (simp add: add_mentions_def add_mentions_fold fold_set_add_order)

text \<open>
  C6. For every comment-created event, \<open>usersToNotify\<close> holds each user at most once, and
  its members are the task's assignee (when there is one) and the users mentioned in the
  text, without the comment's author.
\<close>

theorem comment_recipient_set:
  "distinct (usersToNotify t c) \<and>
   set (usersToNotify t c) =
     ({a. assignedTo t = Str a \<and> a \<noteq> []} \<union> snd ` set (exec_all (scan (commentText c))))
       - {a. Str a = createdBy c}"
  by (auto simp: usersToNotify_def add_mentions_set add_mentions_distinct add_assignee_def
      split: field.splits)

theorem comment_recipient_set_witness:
  "usersToNotify (unassigned_task\<lparr>assignedTo := Str ''u2''\<rparr>)
     \<lparr>commentText = ''@[Bob](u2) @[Ann](u1) @[Bob](u2) @[Cy](u3)'', createdBy = Str ''u1''\<rparr>
     = [''u2'', ''u3'']
   \<and> distinct [''u2'', ''u3'']"
  using comment_recipient_set [of "unassigned_task\<lparr>assignedTo := Str ''u2''\<rparr>"
      "\<lparr>commentText = ''@[Bob](u2) @[Ann](u1) @[Bob](u2) @[Cy](u3)'', createdBy = Str ''u1''\<rparr>"]
  by (simp add: usersToNotify_def add_assignee_def add_mentions_def unassigned_task_def
      match_here_def group_until_def set_add_def)

subsection \<open>Mention extraction\<close>

lemma group_until_append:
  "g \<noteq> [] \<Longrightarrow> c \<notin> set g \<Longrightarrow> group_until c (g @ c # r) = Some (g, r)"
proof -
  assume g: "g \<noteq> []" and c: "c \<notin> set g"
  from c have t: "takeWhile (\<lambda>x. x \<noteq> c) (g @ c # r) = g"
    by (subst takeWhile_append2) auto
  from c have d: "dropWhile (\<lambda>x. x \<noteq> c) (g @ c # r) = c # r"
    by (subst dropWhile_append2) auto
  show ?thesis using g by (simp add: group_until_def t d)
qed

lemma match_here_mention:
  assumes "label \<noteq> []" "CHR '']'' \<notin> set label" "uid \<noteq> []" "CHR '')'' \<notin> set uid"
  shows "match_here (''@['' @ label @ '']('' @ uid @ '')'' @ r) = Some (label, uid, r)"
proof -
  have a: "group_until (CHR '']'') (label @ CHR '']'' # (CHR ''('' # uid @ CHR '')'' # r))
             = Some (label, CHR ''('' # uid @ CHR '')'' # r)"
    using assms by (intro group_until_append)
  have b: "group_until (CHR '')'') (uid @ CHR '')'' # r) = Some (uid, r)"
    using assms by (intro group_until_append)
  show ?thesis by (simp add: match_here_def a b)
qed

lemma match_here_plain: "c \<noteq> CHR ''@'' \<Longrightarrow> match_here (c # s) = None"
  by (cases s) (simp_all add: match_here_def)

lemma match_here_lit:
  "well_formed (Lit c # ps) \<Longrightarrow> match_here (c # markup ps) = None"
proof (cases "c = CHR ''@''")
  case False
  then show ?thesis by (rule match_here_plain)
next
  case True
  assume "well_formed (Lit c # ps)"
  with True have "take 1 (markup ps) \<noteq> ''[''"
    by (cases ps rule: markup.cases) auto
  with True show ?thesis
    by (cases "markup ps") (auto simp: match_here_def)
qed

lemma scan_markup: "well_formed ps \<Longrightarrow> scan (markup ps) = ps"
proof (induction ps)
  case Nil
  show ?case by simp
next
  case (Cons p ps)
  show ?case
  proof (cases p)
    case (Lit c)
    with Cons.prems have "match_here (c # markup ps) = None" by (simp only: match_here_lit)
    moreover from Lit Cons have "scan (markup ps) = ps" by simp
    ultimately show ?thesis using Lit by simp
  next
    case (Mention label uid)
    with Cons have wf: "label \<noteq> []" "CHR '']'' \<notin> set label" "uid \<noteq> []" "CHR '')'' \<notin> set uid"
      and rest: "scan (markup ps) = ps" by simp_all
    have "scan (CHR ''@'' # (CHR ''['' # label @ '']('' @ uid @ '')'' @ markup ps))
            = Mention label uid # scan (markup ps)"
      using match_here_mention [OF wf, of "markup ps"] by (subst scan.simps) simp
    with Mention rest show ?thesis by simp
  qed
qed

text \<open>
  C7. For every comment text and excluded identifier, the loop over the matches of the
  mention expression, started from the empty set, returns the identifiers of the matches
  other than the excluded one, each once, in the order of their first occurrence. For a
  text written as characters and \<open>@[label](userId)\<close> mentions (no \<open>@\<close> of the plain text
  being followed by \<open>[\<close>), the matches are exactly the mentions, and the display text is
  the text with each mention replaced by its label. The
  text \<open>ping @[Bob](u2) and @[Bob](u2) again\<close> with excluded author \<open>u1\<close> gives the set
  \<open>{u2}\<close> and the display text \<open>ping Bob and Bob again\<close>.
\<close>

theorem mention_extraction:
  "distinct (add_mentions (Str excluded) txt [])
   \<and> set (add_mentions (Str excluded) txt []) = snd ` set (exec_all (scan txt)) - {excluded}
   \<and> add_mentions (Str excluded) txt []
       = rev (remdups (rev (filter (\<lambda>u. u \<noteq> excluded) (map snd (exec_all (scan txt))))))
   \<and> (well_formed ps \<longrightarrow>
        exec_all (scan (markup ps)) = exec_all ps
        \<and> replace_mentions (markup ps) = replace_pieces ps)
   \<and> add_mentions (Str ''u1'') ''ping @[Bob](u2) and @[Bob](u2) again'' [] = [''u2'']
   \<and> replace_mentions ''ping @[Bob](u2) and @[Bob](u2) again'' = ''ping Bob and Bob again''"
proof -
  have 1: "distinct (add_mentions (Str excluded) txt [])"
    by (simp add: add_mentions_distinct)
  have 2: "set (add_mentions (Str excluded) txt []) = snd ` set (exec_all (scan txt)) - {excluded}"
    by (auto simp: add_mentions_set)
  have 3: "add_mentions (Str excluded) txt []
       = rev (remdups (rev (filter (\<lambda>u. u \<noteq> excluded) (map snd (exec_all (scan txt))))))"
    by (simp add: add_mentions_order)
  have 4: "well_formed ps \<longrightarrow>
        exec_all (scan (markup ps)) = exec_all ps
        \<and> replace_mentions (markup ps) = replace_pieces ps"
    by (simp add: scan_markup replace_mentions_def)
  have 5: "add_mentions (Str ''u1'') ''ping @[Bob](u2) and @[Bob](u2) again'' [] = [''u2'']"
    by (simp add: add_mentions_def match_here_def group_until_def set_add_def)
  have 6: "replace_mentions ''ping @[Bob](u2) and @[Bob](u2) again'' = ''ping Bob and Bob again''"
    by (simp add: replace_mentions_def match_here_def group_until_def)
  from 1 2 3 4 5 6 show ?thesis by blast
qed

theorem mention_extraction_witness:
  "well_formed [Lit CHR ''a'', Lit CHR ''@'', Mention ''Bob'' ''u2'', Lit CHR '' '', Mention ''Cy'' ''u3'']
   \<and> markup [Lit CHR ''a'', Lit CHR ''@'', Mention ''Bob'' ''u2'', Lit CHR '' '', Mention ''Cy'' ''u3'']
       = ''a@@[Bob](u2) @[Cy](u3)''
   \<and> exec_all (scan ''a@@[Bob](u2) @[Cy](u3)'') = [(''Bob'', ''u2''), (''Cy'', ''u3'')]
   \<and> replace_mentions ''a@@[Bob](u2) @[Cy](u3)'' = ''a@Bob Cy''
   \<and> add_mentions (Str ''u3'') ''a@@[Bob](u2) @[Cy](u3)'' [] = [''u2'']"
  using mention_extraction
    [of "''u3''" "''a@@[Bob](u2) @[Cy](u3)''"
        "[Lit CHR ''a'', Lit CHR ''@'', Mention ''Bob'' ''u2'', Lit CHR '' '', Mention ''Cy'' ''u3'']"]
  by simp

subsection \<open>Invites\<close>

lemma invite_guard_skip:
  "status invite \<noteq> Str ''pending'' \<or> truthy (emailSent invite) \<Longrightarrow>
     sendInviteEmail e invite = \<lparr>result = ReturnNull, sent = [], writes = [], doc = invite\<rparr>"
  by (auto simp: sendInviteEmail_def)

lemma invite_try_cases:
  "(\<exists>err. invite_try e invite = (Inl err, [], [], invite))
   \<or> (\<exists>err n r. invite_try e invite = (Inl err, [invite_mail invite n r], [], invite))
   \<or> (\<exists>err eid n r. invite_try e invite = (Inl err, [invite_mail invite n r], [MarkSent eid], invite))
   \<or> (\<exists>eid n r. invite_try e invite =
         (Inr eid, [invite_mail invite n r], [MarkSent eid], apply_update (MarkSent eid) invite))"
  by (auto simp: invite_try_def Let_def split: sum.splits send_result.splits option.splits)

lemma invite_sent_once:
  assumes "\<not> truthy (emailSent invite)"
    and "emailSent (doc (sendInviteEmail e invite)) = JBool True"
  shows "length (sent (sendInviteEmail e invite)) = 1"
proof -
  from assms have p: "status invite = Str ''pending''"
    by (auto simp: sendInviteEmail_def split: if_splits)
  from invite_try_cases [of e invite] assms p show ?thesis
    by (auto simp: sendInviteEmail_def split: option.splits)
qed

lemma healthy_pending:
  "sendInviteEmail healthy pending_invite =
     \<lparr>result = SuccessId ''e1'',
      sent = [\<lparr>to = Str ''new@yet.lu'', content = InviteMail (Str ''Acme'') (Str ''Ann'') ''member''\<rparr>],
      writes = [MarkSent ''e1''],
      doc = pending_invite\<lparr>emailSent := JBool True, emailSentAt := ServerTimestamp,
                            emailId := Str ''e1''\<rparr>\<rparr>"
  by (simp add: sendInviteEmail_def invite_try_def display_name_def healthy_def pending_invite_def
      ann_def or_else_def invite_mail_def)

text \<open>
  C1. For every invite whose \<open>status\<close> is not \<open>"pending"\<close> or whose \<open>emailSent\<close> is
  \<open>true\<close>, the handler makes no delivery call and no write and leaves the document as it
  is. When a first invocation on an unsent invite leaves \<open>emailSent = true\<close> on the
  document, a second invocation on that document (in any environment \<open>e'\<close>) sends
  nothing, writes nothing and changes nothing, so the two invocations make exactly one
  delivery call in total.
\<close>

theorem invite_guard_idempotent:
  "(status invite \<noteq> Str ''pending'' \<or> emailSent invite = JBool True \<longrightarrow>
      sent (sendInviteEmail e invite) = [] \<and> writes (sendInviteEmail e invite) = []
      \<and> doc (sendInviteEmail e invite) = invite)
   \<and> (\<not> truthy (emailSent invite) \<and> emailSent (doc (sendInviteEmail e invite)) = JBool True \<longrightarrow>
       sent (sendInviteEmail e' (doc (sendInviteEmail e invite))) = []
       \<and> writes (sendInviteEmail e' (doc (sendInviteEmail e invite))) = []
       \<and> doc (sendInviteEmail e' (doc (sendInviteEmail e invite))) = doc (sendInviteEmail e invite)
       \<and> length (sent (sendInviteEmail e invite)
                  @ sent (sendInviteEmail e' (doc (sendInviteEmail e invite)))) = 1)"
proof (intro conjI impI)
  assume "status invite \<noteq> Str ''pending'' \<or> emailSent invite = JBool True"
  then have "sendInviteEmail e invite = \<lparr>result = ReturnNull, sent = [], writes = [], doc = invite\<rparr>"
    by (intro invite_guard_skip) auto
  then show "sent (sendInviteEmail e invite) = []" "writes (sendInviteEmail e invite) = []"
    "doc (sendInviteEmail e invite) = invite" by simp_all
next
  assume a: "\<not> truthy (emailSent invite) \<and> emailSent (doc (sendInviteEmail e invite)) = JBool True"
  then have "truthy (emailSent (doc (sendInviteEmail e invite)))" by simp
  then have s: "sendInviteEmail e' (doc (sendInviteEmail e invite))
     = \<lparr>result = ReturnNull, sent = [], writes = [], doc = doc (sendInviteEmail e invite)\<rparr>"
    by (intro invite_guard_skip) simp
  from s show "sent (sendInviteEmail e' (doc (sendInviteEmail e invite))) = []"
    "writes (sendInviteEmail e' (doc (sendInviteEmail e invite))) = []"
    "doc (sendInviteEmail e' (doc (sendInviteEmail e invite))) = doc (sendInviteEmail e invite)"
    by simp_all
  from a have "length (sent (sendInviteEmail e invite)) = 1" by (intro invite_sent_once) simp_all
  with s show "length (sent (sendInviteEmail e invite)
                  @ sent (sendInviteEmail e' (doc (sendInviteEmail e invite)))) = 1" by simp
qed

theorem invite_guard_idempotent_witness:
  "sent (sendInviteEmail healthy (pending_invite\<lparr>status := Str ''accepted''\<rparr>)) = []
   \<and> \<not> truthy (emailSent pending_invite)
   \<and> emailSent (doc (sendInviteEmail healthy pending_invite)) = JBool True
   \<and> length (sent (sendInviteEmail healthy pending_invite)
              @ sent (sendInviteEmail healthy (doc (sendInviteEmail healthy pending_invite)))) = 1"
proof -
  have a: "status (pending_invite\<lparr>status := Str ''accepted''\<rparr>) \<noteq> Str ''pending''" by simp
  have b: "\<not> truthy (emailSent pending_invite)" by (simp add: pending_invite_def)
  have c: "emailSent (doc (sendInviteEmail healthy pending_invite)) = JBool True"
    by (simp add: healthy_pending)
  from invite_guard_idempotent [of "pending_invite\<lparr>status := Str ''accepted''\<rparr>" healthy healthy] a
  have 1: "sent (sendInviteEmail healthy (pending_invite\<lparr>status := Str ''accepted''\<rparr>)) = []"
    by blast
  from invite_guard_idempotent [of pending_invite healthy healthy] b c
  have 2: "length (sent (sendInviteEmail healthy pending_invite)
              @ sent (sendInviteEmail healthy (doc (sendInviteEmail healthy pending_invite)))) = 1"
    by blast
  from 1 2 b c show ?thesis by blast
qed

lemma invite_try_thrown:
  "fst (invite_try e invite) = Inl msg \<longleftrightarrow>
     newResend e = Some msg
     \<or> newResend e = None
        \<and> display_name e (invitedBy invite) (Str ''A team member'') = Inl msg
     \<or> newResend e = None
        \<and> \<not> isl (display_name e (invitedBy invite) (Str ''A team member''))
        \<and> charAt_receiver (role invite) = Inl msg
     \<or> newResend e = None
        \<and> (\<exists>n r. display_name e (invitedBy invite) (Str ''A team member'') = Inr n
              \<and> role invite = Str r
              \<and> (send e (invite_mail invite n r) = SendRaises msg
                  \<or> send e (invite_mail invite n r) = SendError msg
                  \<or> (\<exists>eid. send e (invite_mail invite n r) = SendOk eid
                        \<and> update e (MarkSent eid) = Some msg)))"
proof (cases "newResend e")
  case (Some err)
  then show ?thesis by (auto simp: invite_try_def)
next
  case None
  show ?thesis
  proof (cases "display_name e (invitedBy invite) (Str ''A team member'')")
    case (Inl err)
    with None show ?thesis by (auto simp: invite_try_def)
  next
    case (Inr n)
    show ?thesis
    proof (cases "role invite")
      case Undefined
      with None Inr show ?thesis by (auto simp: invite_try_def)
    next
      case Null
      with None Inr show ?thesis by (auto simp: invite_try_def)
    next
      case (Str r)
      with None Inr show ?thesis
        by (auto simp: invite_try_def Let_def split: send_result.splits option.splits)
    qed
  qed
qed

lemma invite_catch:
  assumes "status invite = Str ''pending''" and "\<not> truthy (emailSent invite)"
    and "fst (invite_try e invite) = Inl msg"
  shows "\<exists>ms ws. invite_try e invite = (Inl msg, ms, ws, invite)
     \<and> sendInviteEmail e invite =
         (case update e (MarkFailed msg) of
            Some err \<Rightarrow> \<lparr>result = Rejected err, sent = ms, writes = ws @ [MarkFailed msg], doc = invite\<rparr>
          | None \<Rightarrow> \<lparr>result = Failure msg, sent = ms, writes = ws @ [MarkFailed msg],
                      doc = invite\<lparr>emailError := Str msg, emailAttemptedAt := ServerTimestamp\<rparr>\<rparr>)"
proof -
  from invite_try_cases [of e invite] assms(3)
  obtain ms ws where t: "invite_try e invite = (Inl msg, ms, ws, invite)" by auto
  with assms(1,2) show ?thesis by (auto simp: sendInviteEmail_def split: option.splits)
qed

text \<open>
  C9, as the code has it. For an invite that passes the guards, the \<open>try\<close> block throws
  the message \<open>msg\<close> exactly when the construction of the client, the lookup of the
  inviter or \<open>invite.role.charAt\<close> throws it, the delivery call throws it or returns it as
  its error, or the write of \<open>emailSent\<close> fails with it. The handler then calls the
  update that sets \<open>emailError\<close> and \<open>emailAttemptedAt\<close>. If that write succeeds, the
  document differs from the one before in these two fields only, \<open>emailSent\<close> is
  unchanged and the result is the failure with the message. If that write fails, its
  error leaves the handler: no result is returned and the document is unchanged. In
  particular, when delivery returns an error and the write succeeds, the handler has made
  the one delivery call and the one write and returns the failure.
\<close>

theorem invite_failure_recorded:
  assumes "status invite = Str ''pending''" and "\<not> truthy (emailSent invite)"
  shows "(fst (invite_try e invite) = Inl msg \<longleftrightarrow>
            newResend e = Some msg
            \<or> newResend e = None
               \<and> display_name e (invitedBy invite) (Str ''A team member'') = Inl msg
            \<or> newResend e = None
               \<and> \<not> isl (display_name e (invitedBy invite) (Str ''A team member''))
               \<and> charAt_receiver (role invite) = Inl msg
            \<or> newResend e = None
               \<and> (\<exists>n r. display_name e (invitedBy invite) (Str ''A team member'') = Inr n
                     \<and> role invite = Str r
                     \<and> (send e (invite_mail invite n r) = SendRaises msg
                         \<or> send e (invite_mail invite n r) = SendError msg
                         \<or> (\<exists>eid. send e (invite_mail invite n r) = SendOk eid
                               \<and> update e (MarkSent eid) = Some msg))))
       \<and> (fst (invite_try e invite) = Inl msg \<and> update e (MarkFailed msg) = None \<longrightarrow>
            result (sendInviteEmail e invite) = Failure msg
            \<and> doc (sendInviteEmail e invite)
                = invite\<lparr>emailError := Str msg, emailAttemptedAt := ServerTimestamp\<rparr>
            \<and> emailSent (doc (sendInviteEmail e invite)) = emailSent invite)
       \<and> (fst (invite_try e invite) = Inl msg \<and> update e (MarkFailed msg) = Some err \<longrightarrow>
            result (sendInviteEmail e invite) = Rejected err
            \<and> doc (sendInviteEmail e invite) = invite)
       \<and> (newResend e = None
            \<and> display_name e (invitedBy invite) (Str ''A team member'') = Inr n
            \<and> role invite = Str r
            \<and> send e (invite_mail invite n r) = SendError msg
            \<and> update e (MarkFailed msg) = None \<longrightarrow>
            sendInviteEmail e invite =
              \<lparr>result = Failure msg, sent = [invite_mail invite n r], writes = [MarkFailed msg],
               doc = invite\<lparr>emailError := Str msg, emailAttemptedAt := ServerTimestamp\<rparr>\<rparr>)"
proof -
  have 2: "fst (invite_try e invite) = Inl msg \<and> update e (MarkFailed msg) = None \<longrightarrow>
            result (sendInviteEmail e invite) = Failure msg
            \<and> doc (sendInviteEmail e invite)
                = invite\<lparr>emailError := Str msg, emailAttemptedAt := ServerTimestamp\<rparr>
            \<and> emailSent (doc (sendInviteEmail e invite)) = emailSent invite"
    using invite_catch [OF assms, of e msg] by auto
  have 3: "fst (invite_try e invite) = Inl msg \<and> update e (MarkFailed msg) = Some err \<longrightarrow>
            result (sendInviteEmail e invite) = Rejected err
            \<and> doc (sendInviteEmail e invite) = invite"
    using invite_catch [OF assms, of e msg] by auto
  have 4: "newResend e = None
            \<and> display_name e (invitedBy invite) (Str ''A team member'') = Inr n
            \<and> role invite = Str r
            \<and> send e (invite_mail invite n r) = SendError msg
            \<and> update e (MarkFailed msg) = None \<longrightarrow>
            sendInviteEmail e invite =
              \<lparr>result = Failure msg, sent = [invite_mail invite n r], writes = [MarkFailed msg],
               doc = invite\<lparr>emailError := Str msg, emailAttemptedAt := ServerTimestamp\<rparr>\<rparr>"
    using assms by (simp add: sendInviteEmail_def invite_try_def)
  from invite_try_thrown [of e invite msg] 2 3 4 show ?thesis by blast
qed

text \<open>Delivery returns the error \<open>boom\<close>, then \<open>bounced\<close>; then the invite has no role.\<close>

theorem invite_failure_recorded_witness:
  "sendInviteEmail (healthy\<lparr>send := \<lambda>m. SendError ''boom''\<rparr>) pending_invite
     = \<lparr>result = Failure ''boom'',
        sent = [invite_mail pending_invite (Str ''Ann'') ''member''],
        writes = [MarkFailed ''boom''],
        doc = pending_invite\<lparr>emailError := Str ''boom'', emailAttemptedAt := ServerTimestamp\<rparr>\<rparr>
   \<and> result (sendInviteEmail (healthy\<lparr>send := \<lambda>m. SendError ''bounced''\<rparr>) pending_invite)
       = Failure ''bounced''
   \<and> result (sendInviteEmail healthy (pending_invite\<lparr>role := Undefined\<rparr>))
       = Failure ''Cannot read properties of undefined (reading 'charAt')''
   \<and> doc (sendInviteEmail healthy (pending_invite\<lparr>role := Undefined\<rparr>))
       = pending_invite\<lparr>role := Undefined,
            emailError := Str ''Cannot read properties of undefined (reading 'charAt')'',
            emailAttemptedAt := ServerTimestamp\<rparr>"
proof -
  let ?boom = "healthy\<lparr>send := \<lambda>m. SendError ''boom''\<rparr>"
  let ?bounced = "healthy\<lparr>send := \<lambda>m. SendError ''bounced''\<rparr>"
  let ?norole = "pending_invite\<lparr>role := Undefined\<rparr>"
  have g: "status pending_invite = Str ''pending''" "\<not> truthy (emailSent pending_invite)"
    "status ?norole = Str ''pending''" "\<not> truthy (emailSent ?norole)"
    by (simp_all add: pending_invite_def)
  have d: "display_name healthy (invitedBy pending_invite) (Str ''A team member'') = Inr (Str ''Ann'')"
    "display_name ?boom (invitedBy pending_invite) (Str ''A team member'') = Inr (Str ''Ann'')"
    "display_name ?bounced (invitedBy pending_invite) (Str ''A team member'') = Inr (Str ''Ann'')"
    "display_name healthy (invitedBy ?norole) (Str ''A team member'') = Inr (Str ''Ann'')"
    by (simp_all add: display_name_def healthy_def pending_invite_def ann_def or_else_def)
  have r: "role pending_invite = Str ''member''" by (simp add: pending_invite_def)
  have h: "newResend healthy = None" "update healthy = (\<lambda>w. None)" by (simp_all add: healthy_def)
  have 1: "sendInviteEmail ?boom pending_invite
     = \<lparr>result = Failure ''boom'',
        sent = [invite_mail pending_invite (Str ''Ann'') ''member''],
        writes = [MarkFailed ''boom''],
        doc = pending_invite\<lparr>emailError := Str ''boom'', emailAttemptedAt := ServerTimestamp\<rparr>\<rparr>"
    using invite_failure_recorded [OF g(1,2), where e = ?boom and msg = "''boom''"
        and n = "Str ''Ann''" and r = "''member''"] d r h
    by simp
  have 2: "result (sendInviteEmail ?bounced pending_invite) = Failure ''bounced''"
    using invite_failure_recorded [OF g(1,2), where e = ?bounced and msg = "''bounced''"
        and n = "Str ''Ann''" and r = "''member''"] d r h
    by simp
  have t: "fst (invite_try healthy ?norole)
             = Inl ''Cannot read properties of undefined (reading 'charAt')''"
    using invite_failure_recorded [OF g(3,4), where e = healthy
        and msg = "''Cannot read properties of undefined (reading 'charAt')''"] d h
    by simp
  have 3: "result (sendInviteEmail healthy ?norole)
             = Failure ''Cannot read properties of undefined (reading 'charAt')''
      \<and> doc (sendInviteEmail healthy ?norole)
          = ?norole\<lparr>emailError := Str ''Cannot read properties of undefined (reading 'charAt')'',
                     emailAttemptedAt := ServerTimestamp\<rparr>"
    using invite_failure_recorded [OF g(3,4), where e = healthy
        and msg = "''Cannot read properties of undefined (reading 'charAt')''"] t h
    by simp
  from 1 2 3 show ?thesis by simp
qed

text \<open>The claim as stated fails: delivery returns an error, the write of lines 115-118
  fails too, and its error leaves the handler instead of a failure result.\<close>

theorem invite_failure_write_escalates:
  "status pending_invite = Str ''pending'' \<and> \<not> truthy (emailSent pending_invite)
   \<and> (\<forall>m. send (healthy\<lparr>send := \<lambda>m. SendError ''boom'', update := \<lambda>w. Some ''write failed''\<rparr>) m
            = SendError ''boom'')
   \<and> result (sendInviteEmail
        (healthy\<lparr>send := \<lambda>m. SendError ''boom'', update := \<lambda>w. Some ''write failed''\<rparr>)
        pending_invite) = Rejected ''write failed''"
  by (simp add: sendInviteEmail_def invite_try_def display_name_def healthy_def pending_invite_def)

lemma display_name_with_preferences:
  "display_name (with_preferences f e) who dflt = display_name e who dflt"
  by (simp add: display_name_def with_preferences_def split: field.splits sum.splits option.splits)

lemma invite_try_with_preferences:
  "invite_try (with_preferences f e) invite = invite_try e invite"
proof -
  have "send (with_preferences f e) = send e" "update (with_preferences f e) = update e"
    "newResend (with_preferences f e) = newResend e"
    by (simp_all add: with_preferences_def)
  then show ?thesis
    by (simp add: invite_try_def display_name_with_preferences Let_def
        split: sum.splits send_result.splits option.splits)
qed

lemma invite_before_send:
  assumes "status invite = Str ''pending''" and "\<not> truthy (emailSent invite)"
    and "newResend e = Some msg
         \<or> newResend e = None \<and> display_name e (invitedBy invite) (Str ''A team member'') = Inl msg
         \<or> newResend e = None \<and> \<not> isl (display_name e (invitedBy invite) (Str ''A team member''))
            \<and> charAt_receiver (role invite) = Inl msg"
  shows "sent (sendInviteEmail e invite) = [] \<and> writes (sendInviteEmail e invite) = [MarkFailed msg]"
proof -
  from assms(3) have "invite_try e invite = (Inl msg, [], [], invite)"
    by (auto simp: invite_try_def split: sum.splits)
  with assms(1,2) show ?thesis by (simp add: sendInviteEmail_def split: option.splits)
qed

text \<open>
  C10, as the code has it. For every invite that passes the guards, replacing the
  \<open>emailPreferences\<close> of every user record changes nothing in what the handler does; the
  handler makes at most one delivery call and any call is addressed to the invite's email
  address. Exactly one call is made when nothing throws before the send, that is when the
  client is constructed, the lookup of the inviter does not raise and \<open>invite.role\<close> is a
  string. When one of the three throws, no delivery call is made and the only write is the
  update that records the thrown message.
\<close>

theorem invite_ignores_preferences:
  assumes "status invite = Str ''pending''" and "\<not> truthy (emailSent invite)"
  shows "sendInviteEmail (with_preferences f e) invite = sendInviteEmail e invite
       \<and> length (sent (sendInviteEmail e invite)) \<le> 1
       \<and> (\<forall>m \<in> set (sent (sendInviteEmail e invite)). to m = inviteEmail invite)
       \<and> (newResend e = None
           \<and> \<not> isl (display_name e (invitedBy invite) (Str ''A team member''))
           \<and> \<not> isl (charAt_receiver (role invite)) \<longrightarrow>
            length (sent (sendInviteEmail e invite)) = 1)
       \<and> (newResend e = Some msg
           \<or> newResend e = None \<and> display_name e (invitedBy invite) (Str ''A team member'') = Inl msg
           \<or> newResend e = None \<and> \<not> isl (display_name e (invitedBy invite) (Str ''A team member''))
              \<and> charAt_receiver (role invite) = Inl msg \<longrightarrow>
            sent (sendInviteEmail e invite) = []
            \<and> writes (sendInviteEmail e invite) = [MarkFailed msg])"
proof -
  have u: "update (with_preferences f e) = update e" by (simp add: with_preferences_def)
  have 1: "sendInviteEmail (with_preferences f e) invite = sendInviteEmail e invite"
    by (simp add: sendInviteEmail_def invite_try_with_preferences u
        split: prod.splits sum.splits option.splits)
  have 2: "length (sent (sendInviteEmail e invite)) \<le> 1
       \<and> (\<forall>m \<in> set (sent (sendInviteEmail e invite)). to m = inviteEmail invite)"
    using invite_try_cases [of e invite] assms
    by (auto simp: sendInviteEmail_def invite_mail_def split: option.splits)
  have 3: "newResend e = None
           \<and> \<not> isl (display_name e (invitedBy invite) (Str ''A team member''))
           \<and> \<not> isl (charAt_receiver (role invite)) \<longrightarrow>
            length (sent (sendInviteEmail e invite)) = 1"
    using assms
    by (auto simp: sendInviteEmail_def invite_try_def Let_def
        split: sum.splits send_result.splits option.splits)
  have 4: "newResend e = Some msg
           \<or> newResend e = None \<and> display_name e (invitedBy invite) (Str ''A team member'') = Inl msg
           \<or> newResend e = None \<and> \<not> isl (display_name e (invitedBy invite) (Str ''A team member''))
              \<and> charAt_receiver (role invite) = Inl msg \<longrightarrow>
            sent (sendInviteEmail e invite) = []
            \<and> writes (sendInviteEmail e invite) = [MarkFailed msg]"
    using invite_before_send [OF assms, of e msg] by blast
  from 1 2 3 4 show ?thesis by blast
qed

text \<open>Every user has disabled the three categories and the invite is sent all the same;
  an invite without a role gets no delivery call.\<close>

theorem invite_ignores_preferences_witness:
  "sent (sendInviteEmail (with_preferences (\<lambda>uid. JObj [(''taskAssigned'', JBool False),
        (''dueReminders'', JBool False), (''comments'', JBool False)]) healthy) pending_invite)
     = [\<lparr>to = Str ''new@yet.lu'', content = InviteMail (Str ''Acme'') (Str ''Ann'') ''member''\<rparr>]
   \<and> length (sent (sendInviteEmail healthy pending_invite)) = 1
   \<and> sent (sendInviteEmail healthy (pending_invite\<lparr>role := Null\<rparr>)) = []
   \<and> writes (sendInviteEmail healthy (pending_invite\<lparr>role := Null\<rparr>))
       = [MarkFailed ''Cannot read properties of null (reading 'charAt')'']"
proof -
  let ?norole = "pending_invite\<lparr>role := Null\<rparr>"
  have a: "status pending_invite = Str ''pending''" "\<not> truthy (emailSent pending_invite)"
    "status ?norole = Str ''pending''" "\<not> truthy (emailSent ?norole)"
    by (simp_all add: pending_invite_def)
  have d: "display_name healthy (invitedBy pending_invite) (Str ''A team member'') = Inr (Str ''Ann'')"
    "display_name healthy (invitedBy ?norole) (Str ''A team member'') = Inr (Str ''Ann'')"
    by (simp_all add: display_name_def healthy_def pending_invite_def ann_def or_else_def)
  have h: "newResend healthy = None" by (simp add: healthy_def)
  have r: "role pending_invite = Str ''member''" by (simp add: pending_invite_def)
  from invite_ignores_preferences [OF a(1,2), where e = healthy] d h r
  have 1: "sent (sendInviteEmail (with_preferences (\<lambda>uid. JObj [(''taskAssigned'', JBool False),
        (''dueReminders'', JBool False), (''comments'', JBool False)]) healthy) pending_invite)
     = [\<lparr>to = Str ''new@yet.lu'', content = InviteMail (Str ''Acme'') (Str ''Ann'') ''member''\<rparr>]"
    and 2: "length (sent (sendInviteEmail healthy pending_invite)) = 1"
    by (simp_all add: healthy_pending)
  from invite_ignores_preferences [OF a(3,4), where e = healthy
      and msg = "''Cannot read properties of null (reading 'charAt')''"] d h
  have 3: "sent (sendInviteEmail healthy ?norole) = []
     \<and> writes (sendInviteEmail healthy ?norole)
         = [MarkFailed ''Cannot read properties of null (reading 'charAt')'']"
    by simp
  from 1 2 3 show ?thesis by blast
qed

text \<open>The claim as stated fails: the invite passes the guards, the lookup of the inviter
  (lines 63-67) raises, and no delivery call is made.\<close>

theorem invite_lookup_failure_sends_nothing:
  "status pending_invite = Str ''pending'' \<and> \<not> truthy (emailSent pending_invite)
   \<and> sent (sendInviteEmail (healthy\<lparr>users := \<lambda>uid. Inl ''unavailable''\<rparr>) pending_invite) = []"
  by (simp add: sendInviteEmail_def invite_try_def display_name_def healthy_def pending_invite_def)

subsection \<open>Task assignment\<close>

lemma task_assigned_sent:
  assumes "snd (sendTaskAssignedEmail e tenantId projectId before after) \<noteq> []"
  shows "assignedTo before \<noteq> assignedTo after \<and>
     (\<exists>uid u c. assignedTo after = Str uid \<and> uid \<noteq> [] \<and> users e uid = Inr (Some u)
        \<and> \<not> preference_disabled u TaskAssigned
        \<and> snd (sendTaskAssignedEmail e tenantId projectId before after) = [\<lparr>to = email u, content = c\<rparr>])"
proof -
  from assms have ne: "assignedTo before \<noteq> assignedTo after" and tr: "truthy_field (assignedTo after)"
    by (auto simp: sendTaskAssignedEmail_def split: if_splits)
  from tr obtain uid where uid: "assignedTo after = Str uid" "uid \<noteq> []"
    by (cases "assignedTo after") auto
  from assms ne uid obtain u where u: "users e uid = Inr (Some u)"
    by (auto simp: sendTaskAssignedEmail_def split: sum.splits option.splits)
  from assms ne uid u have p: "\<not> preference_disabled u TaskAssigned"
    by (auto simp: sendTaskAssignedEmail_def)
  from assms ne uid u p
  have "\<exists>c. snd (sendTaskAssignedEmail e tenantId projectId before after) = [\<lparr>to = email u, content = c\<rparr>]"
    by (auto simp: sendTaskAssignedEmail_def Let_def
        split: sum.splits send_result.splits option.splits)
  with ne uid u p show ?thesis by blast
qed

lemma task_assigned_sends:
  assumes "assignedTo before \<noteq> assignedTo after" and "assignedTo after = Str uid" and "uid \<noteq> []"
    and "users e uid = Inr (Some u)" and "\<not> preference_disabled u TaskAssigned"
    and "\<not> isl (projectDoc e tenantId projectId)" and "\<not> isl (tenantDoc e tenantId)"
    and "\<not> isl (display_name e (updatedBy after) (Str ''Someone''))"
    and "newResend e = None" and "priority after = Str pr"
  shows "\<exists>c. snd (sendTaskAssignedEmail e tenantId projectId before after) = [\<lparr>to = email u, content = c\<rparr>]"
  using assms
  by (auto simp: sendTaskAssignedEmail_def Let_def split: sum.splits send_result.splits)

lemma task_assigned_priority:
  assumes "assignedTo before \<noteq> assignedTo after" and "assignedTo after = Str uid" and "uid \<noteq> []"
    and "users e uid = Inr (Some u)" and "\<not> preference_disabled u TaskAssigned"
    and "\<not> isl (projectDoc e tenantId projectId)" and "\<not> isl (tenantDoc e tenantId)"
    and "\<not> isl (display_name e (updatedBy after) (Str ''Someone''))"
    and "newResend e = None" and "charAt_receiver (priority after) = Inl msg"
  shows "sendTaskAssignedEmail e tenantId projectId before after = (Failure msg, [])"
  using assms
  by (auto simp: sendTaskAssignedEmail_def Let_def split: sum.splits)

text \<open>
  C4, as the code has it. For every task update, a delivery call is made only if
  \<open>assignedTo\<close> changed and its new value is a non-empty identifier of an existing user
  who has not disabled the category; there is then one call, addressed to that user.
  Conversely, when these conditions hold and nothing throws before the send (the lookups
  of the project, of the tenant and of the updater do not raise, the client is
  constructed and \<open>priority\<close> is a string), the call is made, whoever \<open>updatedBy\<close> is:
  the handler does not compare the assignee with the updater. When \<open>priority\<close> is not a
  string, building the email throws and the handler returns a failure without a call.
\<close>

theorem task_assigned_recipient:
  "(snd (sendTaskAssignedEmail e tenantId projectId before after) \<noteq> [] \<longrightarrow>
      assignedTo before \<noteq> assignedTo after \<and>
      (\<exists>uid u c. assignedTo after = Str uid \<and> uid \<noteq> [] \<and> users e uid = Inr (Some u)
         \<and> \<not> preference_disabled u TaskAssigned
         \<and> snd (sendTaskAssignedEmail e tenantId projectId before after)
             = [\<lparr>to = email u, content = c\<rparr>]))
   \<and> (assignedTo before \<noteq> assignedTo after \<and> assignedTo after = Str uid' \<and> uid' \<noteq> []
       \<and> users e uid' = Inr (Some u') \<and> \<not> preference_disabled u' TaskAssigned
       \<and> \<not> isl (projectDoc e tenantId projectId) \<and> \<not> isl (tenantDoc e tenantId)
       \<and> \<not> isl (display_name e (updatedBy after) (Str ''Someone''))
       \<and> newResend e = None \<and> priority after = Str pr \<longrightarrow>
       (\<exists>c. snd (sendTaskAssignedEmail e tenantId projectId before after)
              = [\<lparr>to = email u', content = c\<rparr>]))
   \<and> (assignedTo before \<noteq> assignedTo after \<and> assignedTo after = Str uid' \<and> uid' \<noteq> []
       \<and> users e uid' = Inr (Some u') \<and> \<not> preference_disabled u' TaskAssigned
       \<and> \<not> isl (projectDoc e tenantId projectId) \<and> \<not> isl (tenantDoc e tenantId)
       \<and> \<not> isl (display_name e (updatedBy after) (Str ''Someone''))
       \<and> newResend e = None \<and> charAt_receiver (priority after) = Inl msg \<longrightarrow>
       sendTaskAssignedEmail e tenantId projectId before after = (Failure msg, []))"
  using task_assigned_sent [of e tenantId projectId before after]
    task_assigned_sends [of before after uid' e u' tenantId projectId pr]
    task_assigned_priority [of before after uid' e u' tenantId projectId msg]
  by blast

text \<open>User \<open>u1\<close> assigns the task to \<open>u2\<close>; the assignment is removed; the task has no
  priority.\<close>

theorem task_assigned_recipient_witness:
  "snd (sendTaskAssignedEmail healthy ''t1'' ''p1'' unassigned_task
          (unassigned_task\<lparr>assignedTo := Str ''u2''\<rparr>))
     = [\<lparr>to = Str ''bob@yet.lu'',
         content = TaskAssignedMail (Str ''Write report'') Undefined (Str ''Site'') (Str ''Acme'')
                     (Str ''Ann'') ''high'' None\<rparr>]
   \<and> snd (sendTaskAssignedEmail healthy ''t1'' ''p1'' (unassigned_task\<lparr>assignedTo := Str ''u2''\<rparr>)
          unassigned_task) = []
   \<and> sendTaskAssignedEmail healthy ''t1'' ''p1'' unassigned_task
          (unassigned_task\<lparr>assignedTo := Str ''u2'', priority := Undefined\<rparr>)
       = (Failure ''Cannot read properties of undefined (reading 'charAt')'', [])"
proof -
  let ?after = "unassigned_task\<lparr>assignedTo := Str ''u2''\<rparr>"
  let ?bare = "unassigned_task\<lparr>assignedTo := Str ''u2'', priority := Undefined\<rparr>"
  have a: "assignedTo unassigned_task \<noteq> assignedTo ?after" "assignedTo ?after = Str ''u2''"
    "assignedTo unassigned_task \<noteq> assignedTo ?bare" "assignedTo ?bare = Str ''u2''"
    "priority ?after = Str ''high''"
    "charAt_receiver (priority ?bare) = Inl ''Cannot read properties of undefined (reading 'charAt')''"
    by (simp_all add: unassigned_task_def)
  have b: "users healthy ''u2'' = Inr (Some bob)" "\<not> preference_disabled bob TaskAssigned"
    "\<not> isl (projectDoc healthy ''t1'' ''p1'')" "\<not> isl (tenantDoc healthy ''t1'')"
    "newResend healthy = None"
    by (simp_all add: healthy_def preference_disabled_def bob_def)
  have d: "\<not> isl (display_name healthy (updatedBy ?after) (Str ''Someone''))"
    "\<not> isl (display_name healthy (updatedBy ?bare) (Str ''Someone''))"
    by (simp_all add: display_name_def healthy_def unassigned_task_def)
  from task_assigned_recipient [where e = healthy and tenantId = "''t1''" and projectId = "''p1''"
      and before = unassigned_task and after = ?after and uid' = "''u2''" and u' = bob
      and pr = "''high''"] a b d
  have 1: "snd (sendTaskAssignedEmail healthy ''t1'' ''p1'' unassigned_task ?after)
     = [\<lparr>to = Str ''bob@yet.lu'',
         content = TaskAssignedMail (Str ''Write report'') Undefined (Str ''Site'') (Str ''Acme'')
                     (Str ''Ann'') ''high'' None\<rparr>]"
    by (simp add: sendTaskAssignedEmail_def healthy_def unassigned_task_def ann_def bob_def
        preference_disabled_def display_name_def or_else_def)
  from task_assigned_recipient [where e = healthy and tenantId = "''t1''" and projectId = "''p1''"
      and before = ?after and after = unassigned_task]
  have 2: "snd (sendTaskAssignedEmail healthy ''t1'' ''p1'' ?after unassigned_task) = []"
    by (auto simp: unassigned_task_def)
  from task_assigned_recipient [where e = healthy and tenantId = "''t1''" and projectId = "''p1''"
      and before = unassigned_task and after = ?bare and uid' = "''u2''" and u' = bob
      and msg = "''Cannot read properties of undefined (reading 'charAt')''"] a b d
  have 3: "sendTaskAssignedEmail healthy ''t1'' ''p1'' unassigned_task ?bare
       = (Failure ''Cannot read properties of undefined (reading 'charAt')'', [])"
    by simp
  from 1 2 3 show ?thesis by blast
qed

text \<open>The claim as stated fails: user \<open>u1\<close> assigns the task to \<open>u1\<close>, and one delivery
  call to \<open>u1\<close> is made.\<close>

theorem task_self_assignment_notifies:
  "updatedBy (unassigned_task\<lparr>assignedTo := Str ''u1''\<rparr>) = Str ''u1''
   \<and> sendTaskAssignedEmail healthy ''t1'' ''p1'' unassigned_task (unassigned_task\<lparr>assignedTo := Str ''u1''\<rparr>)
   = (Success, [\<lparr>to = Str ''ann@yet.lu'',
        content = TaskAssignedMail (Str ''Write report'') Undefined (Str ''Site'') (Str ''Acme'')
                    (Str ''Ann'') ''high'' None\<rparr>])"
  by (simp add: sendTaskAssignedEmail_def healthy_def unassigned_task_def ann_def
      preference_disabled_def display_name_def or_else_def)

subsection \<open>Grouping of the tasks of a project\<close>

lemma push_map_of:
  "map_of (push k v m) = (map_of m)(k \<mapsto> (case map_of m k of None \<Rightarrow> [] | Some vs \<Rightarrow> vs) @ [v])"
  by (induction m) (auto simp: fun_eq_iff)

lemma push_keys:
  "map fst (push k v m) = (if k \<in> fst ` set m then map fst m else map fst m @ [k])"
  by (induction m) force+

lemma push_distinct: "distinct (map fst m) \<Longrightarrow> distinct (map fst (push k v m))"
  by (simp add: push_keys)

lemma assignee_tasks_snoc:
  "assignee_tasks projectId p k (ds @ [d]) =
     assignee_tasks projectId p k ds
       @ (if assignedTo (snd d) = Str k then [digest_entry projectId p d] else [])"
  by (simp add: assignee_tasks_def)

lemma group_task_inv:
  assumes "group_task projectId p d m0 = Inr m" and "distinct (map fst m0)"
    and "\<forall>k. map_of m0 k = (if k \<noteq> [] \<and> assignee_tasks projectId p k done \<noteq> []
                               then Some (assignee_tasks projectId p k done) else None)"
  shows "distinct (map fst m) \<and>
    (\<forall>k. map_of m k = (if k \<noteq> [] \<and> assignee_tasks projectId p k (done @ [d]) \<noteq> []
                         then Some (assignee_tasks projectId p k (done @ [d])) else None))"
proof (cases "assignedTo (snd d)")
  case Undefined
  with assms show ?thesis by (simp add: group_task_def assignee_tasks_snoc)
next
  case Null
  with assms show ?thesis by (simp add: group_task_def assignee_tasks_snoc)
next
  case (Str a)
  show ?thesis
  proof (cases "a = []")
    case True
    with Str assms show ?thesis by (auto simp: group_task_def assignee_tasks_snoc)
  next
    case False
    with Str assms(1) have m: "m = push a (digest_entry projectId p d) m0"
      by (auto simp: group_task_def split: if_splits)
    from assms(2) have "distinct (map fst m)" unfolding m by (rule push_distinct)
    moreover from assms(3) False Str
    have "\<forall>k. map_of m k = (if k \<noteq> [] \<and> assignee_tasks projectId p k (done @ [d]) \<noteq> []
                         then Some (assignee_tasks projectId p k (done @ [d])) else None)"
      unfolding m by (auto simp: push_map_of assignee_tasks_snoc)
    ultimately show ?thesis by simp
  qed
qed

lemma group_tasks_inv:
  assumes "group_tasks projectId p ds m0 = Inr m" and "distinct (map fst m0)"
    and "\<forall>k. map_of m0 k = (if k \<noteq> [] \<and> assignee_tasks projectId p k done \<noteq> []
                               then Some (assignee_tasks projectId p k done) else None)"
  shows "distinct (map fst m) \<and>
    (\<forall>k. map_of m k = (if k \<noteq> [] \<and> assignee_tasks projectId p k (done @ ds) \<noteq> []
                         then Some (assignee_tasks projectId p k (done @ ds)) else None))"
  using assms
proof (induction ds arbitrary: m0 "done")
  case Nil
  then show ?case by simp
next
  case (Cons d ds)
  from Cons.prems(1) obtain m1 where 1: "group_task projectId p d m0 = Inr m1"
    and 2: "group_tasks projectId p ds m1 = Inr m"
    by (auto split: sum.splits)
  from group_task_inv [OF 1 Cons.prems(2,3)]
  have "distinct (map fst m1)"
    and "\<forall>k. map_of m1 k = (if k \<noteq> [] \<and> assignee_tasks projectId p k (done @ [d]) \<noteq> []
                         then Some (assignee_tasks projectId p k (done @ [d])) else None)"
    by simp_all
  from Cons.IH [OF 2 this] show ?case by simp
qed

lemma group_tasks_result:
  assumes "group_tasks projectId p ds [] = Inr m"
  shows "distinct (map fst m)"
    and "set m = {(k, ts). k \<noteq> [] \<and> ts = assignee_tasks projectId p k ds \<and> ts \<noteq> []}"
proof -
  from group_tasks_inv [OF assms, of "[]"]
  have d: "distinct (map fst m)"
    and a: "\<And>k. map_of m k = (if k \<noteq> [] \<and> assignee_tasks projectId p k ds \<noteq> []
                         then Some (assignee_tasks projectId p k ds) else None)"
    by (simp_all add: assignee_tasks_def)
  show "distinct (map fst m)" by (rule d)
  have "\<And>k ts. (k, ts) \<in> set m \<longleftrightarrow> map_of m k = Some ts"
    using d by simp
  then have "\<And>k ts. (k, ts) \<in> set m \<longleftrightarrow>
      (k \<noteq> [] \<and> ts = assignee_tasks projectId p k ds \<and> ts \<noteq> [])"
    by (auto simp: a split: if_splits)
  then show "set m = {(k, ts). k \<noteq> [] \<and> ts = assignee_tasks projectId p k ds \<and> ts \<noteq> []}"
    by auto
qed

lemma object_entries_mset: "mset (object_entries m) = mset m"
  by (simp add: object_entries_def)

lemma object_entries_set: "set (object_entries m) = set m"
  using object_entries_mset [of m] by (metis set_mset_mset)

lemma object_entries_distinct: "distinct (map fst (object_entries m)) = distinct (map fst m)"
proof -
  have "mset (map fst (object_entries m)) = mset (map fst m)"
    using object_entries_mset [of m] by (metis mset_map)
  then show ?thesis by (rule mset_eq_imp_distinct_iff)
qed

lemma assignee_tasks_nonempty:
  "assignee_tasks projectId p k ds \<noteq> [] \<longleftrightarrow> (\<exists>d \<in> set ds. assignedTo (snd d) = Str k)"
  by (auto simp: assignee_tasks_def filter_empty_conv)

lemma grouped_keys:
  assumes "group_tasks projectId p ds [] = Inr m"
  shows "fst ` set (object_entries m) = {k. k \<noteq> [] \<and> (\<exists>d \<in> set ds. assignedTo (snd d) = Str k)}"
  unfolding object_entries_set group_tasks_result(2) [OF assms]
  by (force simp: assignee_tasks_nonempty image_iff)

subsection \<open>The loops over the recipients\<close>

lemma eligible_set:
  "set (eligible e c ks) = {(k, u). k \<in> set ks \<and> users e k = Inr (Some u) \<and> \<not> preference_disabled u c}"
  by (induction ks) (auto split: sum.splits option.splits)

lemma eligible_keys:
  "map fst (eligible e c ks) = filter (\<lambda>k. \<exists>u. users e k = Inr (Some u) \<and> \<not> preference_disabled u c) ks"
  by (induction ks) (auto split: sum.splits option.splits)

lemma eligible_distinct: "distinct ks \<Longrightarrow> distinct (map fst (eligible e c ks))"
  by (simp add: eligible_keys)

lemma send_case_raised:
  "(case r of SendRaises err \<Rightarrow> A err | SendError err \<Rightarrow> B | SendOk eid \<Rightarrow> B)
     = (case raised r of Some err \<Rightarrow> A err | None \<Rightarrow> B)"
  by (cases r) simp_all







lemma send_digests_None:
  "send_digests e tn es acc = (None, acc') \<Longrightarrow> acc' = acc @ digest_mails e tn es"
proof (induction es arbitrary: acc)
  case Nil
  then show ?case by simp
next
  case (Cons x es)
  obtain k ts where x: "x = (k, ts)" by (cases x)
  from Cons.prems show ?case unfolding x
    by (auto split: sum.splits option.splits send_result.splits if_splits dest!: Cons.IH)
qed

lemma send_digests_part:
  "\<exists>ms. snd (send_digests e tn es acc) = acc @ ms \<and> set ms \<subseteq> set (digest_mails e tn es)"
proof (induction es arbitrary: acc)
  case Nil
  show ?case by simp
next
  case (Cons x es)
  obtain k ts where x: "x = (k, ts)" by (cases x)
  from Cons [of acc] obtain ms1 where 1: "snd (send_digests e tn es acc) = acc @ ms1"
    "set ms1 \<subseteq> set (digest_mails e tn es)" by blast
  show ?case
  proof (cases "users e k")
    case (Inl err)
    then show ?thesis unfolding x by simp
  next
    case (Inr uo)
    show ?thesis
    proof (cases uo)
      case None
      with Inr 1 show ?thesis unfolding x by simp
    next
      case (Some u)
      show ?thesis
      proof (cases "preference_disabled u DueReminders")
        case True
        with Inr Some 1 show ?thesis unfolding x by simp
      next
        case False
        let ?m = "digest_mail tn u ts"
        from Cons [of "acc @ [?m]"] obtain ms2 where
          2: "snd (send_digests e tn es (acc @ [?m])) = (acc @ [?m]) @ ms2"
          "set ms2 \<subseteq> set (digest_mails e tn es)" by blast
        have d: "digest_mails e tn ((k, ts) # es) = ?m # digest_mails e tn es"
          using Inr Some False by simp
        show ?thesis
        proof (cases "newResend e")
          case (Some err)
          with Inr \<open>uo = Some u\<close> False show ?thesis unfolding x by simp
        next
          case None
          show ?thesis
          proof (cases "raised (send e ?m)")
            case (Some err)
            then have "snd (send_digests e tn ((k, ts) # es) acc) = acc @ [?m]"
              using Inr \<open>uo = Some u\<close> False None by (simp add: send_case_raised)
            with d show ?thesis unfolding x by auto
          next
            case None
            then have "snd (send_digests e tn ((k, ts) # es) acc)
                = snd (send_digests e tn es (acc @ [?m]))"
              using Inr \<open>uo = Some u\<close> False \<open>newResend e = None\<close> by (simp add: send_case_raised)
            with 2 d show ?thesis unfolding x by auto
          qed
        qed
      qed
    qed
  qed
qed

lemma digest_mails_map:
  assumes "\<forall>(k, ts) \<in> set es. ts = F k"
  shows "digest_mails e tn es
     = map (\<lambda>(k, u). digest_mail tn u (F k)) (eligible e DueReminders (map fst es))"
  using assms
  by (induction es) (auto split: sum.splits option.splits)

lemma digest_mails_to:
  "to ` set (digest_mails e tn es)
     = {email u |u k. k \<in> fst ` set es \<and> users e k = Inr (Some u) \<and> \<not> preference_disabled u DueReminders}"
proof (induction es)
  case Nil
  show ?case by simp
next
  case (Cons x es)
  obtain k ts where x: "x = (k, ts)" by (cases x)
  show ?case unfolding x using Cons
    by (auto simp: digest_mail_def split: sum.splits option.splits)
qed

subsection \<open>The loops over the projects and the tenants\<close>

lemma project_reminders_None:
  assumes "project_reminders e today dat tenantId tn pd acc = (None, acc')"
  shows "\<exists>docs m. tasksCollection e tenantId (fst pd) = Inr docs
           \<and> group_tasks (fst pd) (snd pd) (due_query today dat docs) [] = Inr m
           \<and> acc' = acc @ digest_mails e tn (object_entries m)"
  using assms
  by (auto simp: project_reminders_def split: sum.splits dest: send_digests_None)

lemma project_reminders_to:
  assumes "project_reminders e today dat tenantId tn pd acc = (None, acc')"
  shows "to ` set acc' = to ` set acc \<union> project_recipients e today dat tenantId (fst pd)"
proof -
  from project_reminders_None [OF assms] obtain docs m where
    docs: "tasksCollection e tenantId (fst pd) = Inr docs"
    and m: "group_tasks (fst pd) (snd pd) (due_query today dat docs) [] = Inr m"
    and acc': "acc' = acc @ digest_mails e tn (object_entries m)"
    by auto
  have "to ` set (digest_mails e tn (object_entries m))
          = project_recipients e today dat tenantId (fst pd)"
    unfolding digest_mails_to grouped_keys [OF m] project_recipients_def
    by (simp add: docs)
  then show ?thesis unfolding acc' by (simp add: image_Un)
qed

lemma project_reminders_part:
  "to ` set (snd (project_reminders e today dat tenantId tn pd acc))
     \<subseteq> to ` set acc \<union> project_recipients e today dat tenantId (fst pd)"
proof (cases "tasksCollection e tenantId (fst pd)")
  case (Inl err)
  then show ?thesis by (simp add: project_reminders_def)
next
  case (Inr docs)
  show ?thesis
  proof (cases "group_tasks (fst pd) (snd pd) (due_query today dat docs) []")
    case (Inl err)
    with \<open>tasksCollection e tenantId (fst pd) = Inr docs\<close> show ?thesis
      by (simp add: project_reminders_def)
  next
    case (Inr m)
    from send_digests_part [of e tn "object_entries m" acc] obtain ms where
      ms: "snd (send_digests e tn (object_entries m) acc) = acc @ ms"
      "set ms \<subseteq> set (digest_mails e tn (object_entries m))" by blast
    have "to ` set (digest_mails e tn (object_entries m))
            = project_recipients e today dat tenantId (fst pd)"
      unfolding digest_mails_to grouped_keys [OF Inr] project_recipients_def
      by (simp add: \<open>tasksCollection e tenantId (fst pd) = Inr docs\<close>)
    with ms have "to ` set (snd (send_digests e tn (object_entries m) acc))
        \<subseteq> to ` set acc \<union> project_recipients e today dat tenantId (fst pd)"
      by (auto simp: image_Un)
    with Inr \<open>tasksCollection e tenantId (fst pd) = Inr docs\<close> show ?thesis
      by (simp add: project_reminders_def)
  qed
qed




lemma projects_loop_to:
  assumes "projects_loop e today dat tenantId tn pds acc = (None, acc')"
  shows "to ` set acc' = to ` set acc \<union> (\<Union>pd \<in> set pds. project_recipients e today dat tenantId (fst pd))"
  using assms
proof (induction pds arbitrary: acc)
  case Nil
  then show ?case by simp
next
  case (Cons pd pds)
  from Cons.prems obtain acc1 where
    1: "project_reminders e today dat tenantId tn pd acc = (None, acc1)"
    and 2: "projects_loop e today dat tenantId tn pds acc1 = (None, acc')"
    by (auto split: prod.splits option.splits)
  from project_reminders_to [OF 1] Cons.IH [OF 2] show ?case by auto
qed

lemma projects_loop_part:
  "to ` set (snd (projects_loop e today dat tenantId tn pds acc))
     \<subseteq> to ` set acc \<union> (\<Union>pd \<in> set pds. project_recipients e today dat tenantId (fst pd))"
proof (induction pds arbitrary: acc)
  case Nil
  show ?case by simp
next
  case (Cons pd pds)
  obtain r acc1 where 1: "project_reminders e today dat tenantId tn pd acc = (r, acc1)"
    by (cases "project_reminders e today dat tenantId tn pd acc")
  from project_reminders_part [of e today dat tenantId tn pd acc] 1
  have a: "to ` set acc1 \<subseteq> to ` set acc \<union> project_recipients e today dat tenantId (fst pd)"
    by simp
  show ?case
  proof (cases r)
    case (Some err)
    with 1 a show ?thesis by auto
  next
    case None
    with 1 have s: "snd (projects_loop e today dat tenantId tn (pd # pds) acc)
        = snd (projects_loop e today dat tenantId tn pds acc1)" by simp
    have "to ` set (snd (projects_loop e today dat tenantId tn pds acc1))
        \<subseteq> to ` set acc \<union> (project_recipients e today dat tenantId (fst pd)
             \<union> (\<Union>pd \<in> set pds. project_recipients e today dat tenantId (fst pd)))"
      using Cons [of acc1] a by blast
    then show ?thesis unfolding s by simp
  qed
qed



lemma tenants_loop_to:
  assumes "tenants_loop e today dat tds acc = (None, acc')"
  shows "to ` set acc' = to ` set acc \<union> (\<Union>td \<in> set tds. tenant_recipients e today dat (fst td))"
  using assms
proof (induction tds arbitrary: acc)
  case Nil
  then show ?case by simp
next
  case (Cons td tds)
  from Cons.prems obtain pds acc1 where
    0: "projectsSnapshot e (fst td) = Inr pds"
    and 1: "projects_loop e today dat (fst td) (snd td) pds acc = (None, acc1)"
    and 2: "tenants_loop e today dat tds acc1 = (None, acc')"
    by (auto split: sum.splits prod.splits option.splits)
  have "tenant_recipients e today dat (fst td)
          = (\<Union>pd \<in> set pds. project_recipients e today dat (fst td) (fst pd))"
    using 0 by (auto simp: tenant_recipients_def)
  with projects_loop_to [OF 1] Cons.IH [OF 2] show ?case by auto
qed

lemma tenants_loop_part:
  "to ` set (snd (tenants_loop e today dat tds acc))
     \<subseteq> to ` set acc \<union> (\<Union>td \<in> set tds. tenant_recipients e today dat (fst td))"
proof (induction tds arbitrary: acc)
  case Nil
  show ?case by simp
next
  case (Cons td tds)
  show ?case
  proof (cases "projectsSnapshot e (fst td)")
    case (Inl err)
    then show ?thesis by auto
  next
    case (Inr pds)
    obtain r acc1 where 1: "projects_loop e today dat (fst td) (snd td) pds acc = (r, acc1)"
      by (cases "projects_loop e today dat (fst td) (snd td) pds acc")
    have t: "tenant_recipients e today dat (fst td)
          = (\<Union>pd \<in> set pds. project_recipients e today dat (fst td) (fst pd))"
      using Inr by (auto simp: tenant_recipients_def)
    from projects_loop_part [of e today dat "fst td" "snd td" pds acc] 1 t
    have a: "to ` set acc1 \<subseteq> to ` set acc \<union> tenant_recipients e today dat (fst td)"
      by simp
    show ?thesis
    proof (cases r)
      case (Some err)
      with 1 a Inr show ?thesis by auto
    next
      case None
      with 1 Inr have s: "snd (tenants_loop e today dat (td # tds) acc)
          = snd (tenants_loop e today dat tds acc1)" by simp
      have "to ` set (snd (tenants_loop e today dat tds acc1))
          \<subseteq> to ` set acc \<union> (tenant_recipients e today dat (fst td)
               \<union> (\<Union>td \<in> set tds. tenant_recipients e today dat (fst td)))"
        using Cons [of acc1] a by blast
      then show ?thesis unfolding s by simp
    qed
  qed
qed

subsection \<open>Runs of the reminder handler\<close>

lemma tenant_recipients_union:
  assumes "tenantsSnapshot e = Inr tds"
  shows "(\<Union>td \<in> set tds. tenant_recipients e today dat (fst td)) = due_recipients e today dat"
    (is "?L = ?R")
proof -
  have q: "\<And>docs taskId t. (taskId, t) \<in> set (due_query today dat docs) \<longleftrightarrow>
      (taskId, t) \<in> set docs
      \<and> (\<exists>due. dueDate t = Some due \<and> today \<le> due \<and> due < dat) \<and> taskStatus t \<noteq> ''done''"
    by (auto simp: due_query_def split: option.splits)
  show ?thesis
  proof (intro set_eqI iffI)
    fix r assume "r \<in> ?L"
    then obtain tenantId tn pds projectId p u k docs d where
      h: "(tenantId, tn) \<in> set tds" "projectsSnapshot e tenantId = Inr pds" "(projectId, p) \<in> set pds"
      "tasksCollection e tenantId projectId = Inr docs" "d \<in> set (due_query today dat docs)"
      "assignedTo (snd d) = Str k" "k \<noteq> []" "users e k = Inr (Some u)"
      "\<not> preference_disabled u DueReminders" "r = email u"
      by (fastforce simp: tenant_recipients_def project_recipients_def)
    obtain taskId t where d: "d = (taskId, t)" by (cases d)
    from h(5) d q [of taskId t docs] obtain due where
      t: "(taskId, t) \<in> set docs" "dueDate t = Some due" "today \<le> due" "due < dat"
        "taskStatus t \<noteq> ''done''" by auto
    from h d t assms show "r \<in> ?R" unfolding due_recipients_def by auto blast
  next
    fix r assume "r \<in> ?R"
    then obtain u k tenantId tn pds projectId p docs taskId t due where
      h: "r = email u" "(tenantId, tn) \<in> set tds"
        "projectsSnapshot e tenantId = Inr pds" "(projectId, p) \<in> set pds"
        "tasksCollection e tenantId projectId = Inr docs" "(taskId, t) \<in> set docs"
        "dueDate t = Some due" "today \<le> due" "due < dat" "taskStatus t \<noteq> ''done''"
        "assignedTo t = Str k" "k \<noteq> []"
        "users e k = Inr (Some u)" "\<not> preference_disabled u DueReminders"
      using assms unfolding due_recipients_def by auto
    from h have "(taskId, t) \<in> set (due_query today dat docs)" by (simp add: q)
    with h have "r \<in> project_recipients e today dat tenantId projectId"
      unfolding project_recipients_def by force
    with h have "r \<in> tenant_recipients e today dat tenantId"
      unfolding tenant_recipients_def by force
    with h show "r \<in> ?L" by force
  qed
qed

lemma run_recipients_success:
  assumes "sendDueDateReminders e now = (Success, ms)"
  shows "to ` set ms
     = due_recipients e (today_of (utcOffset e) now) (dayAfterTomorrow_of (utcOffset e) now)"
proof -
  from assms obtain tds where tds: "tenantsSnapshot e = Inr tds"
    and loop: "tenants_loop e (today_of (utcOffset e) now) (dayAfterTomorrow_of (utcOffset e) now)
                 tds [] = (None, ms)"
    by (auto simp: sendDueDateReminders_def Let_def split: sum.splits prod.splits option.splits)
  from tenants_loop_to [OF loop] tenant_recipients_union [OF tds] show ?thesis by simp
qed

lemma run_recipients_part:
  "to ` set (snd (sendDueDateReminders e now))
     \<subseteq> due_recipients e (today_of (utcOffset e) now) (dayAfterTomorrow_of (utcOffset e) now)"
proof (cases "tenantsSnapshot e")
  case (Inl err)
  then show ?thesis by (simp add: sendDueDateReminders_def)
next
  case (Inr tds)
  let ?t = "today_of (utcOffset e) now" and ?d = "dayAfterTomorrow_of (utcOffset e) now"
  have "snd (sendDueDateReminders e now) = snd (tenants_loop e ?t ?d tds [])"
    using Inr by (simp add: sendDueDateReminders_def Let_def split: prod.splits option.splits)
  with tenants_loop_part [of e ?t ?d tds "[]"] tenant_recipients_union [OF Inr, of ?t ?d]
  show ?thesis by simp
qed








subsection \<open>Sample runs\<close>

lemma keys_not_index [simp]: "\<not> is_array_index ''u1''" "\<not> is_array_index ''u2''"
  by (simp_all add: is_array_index_def)

lemma keys_not_inherited [simp]: "''u1'' \<notin> set inherited_keys" "''u2'' \<notin> set inherited_keys"
  by (simp_all add: inherited_keys_def)

lemma sample_bounds [simp]:
  "today_of 3600000 25200000 = - 3600000" "dayAfterTomorrow_of 3600000 25200000 = 169200000"
  by (simp_all add: today_of_def dayAfterTomorrow_of_def ms_per_day_def)

lemma one_project_run:
  "sendDueDateReminders one_project 25200000 =
     (Success,
      [digest_mail acme ann
         [digest_entry ''p1'' \<lparr>title = Str ''Site''\<rparr> (''k1'', due_task ''u1'' 39600000),
          digest_entry ''p1'' \<lparr>title = Str ''Site''\<rparr> (''k2'', due_task ''u1'' 126000000)],
       digest_mail acme bob
         [digest_entry ''p1'' \<lparr>title = Str ''Site''\<rparr> (''k3'', due_task ''u2'' 39600000)]])"
  by (simp add: sendDueDateReminders_def one_project_def healthy_def project_reminders_def
      due_query_def due_task_def group_task_def object_entries_def
      preference_disabled_def ann_def bob_def)

lemma two_projects_run:
  "sendDueDateReminders two_projects 25200000 =
     (Success,
      [digest_mail acme ann [digest_entry ''p1'' \<lparr>title = Str ''Site''\<rparr> (''k1'', due_task ''u1'' 39600000)],
       digest_mail acme ann [digest_entry ''p2'' \<lparr>title = Str ''Shop''\<rparr> (''k2'', due_task ''u1'' 126000000)]])"
  by (simp add: sendDueDateReminders_def two_projects_def healthy_def project_reminders_def
      due_query_def due_task_def group_task_def object_entries_def
      preference_disabled_def ann_def bob_def)




subsection \<open>Errors in the fan-out handlers\<close>











subsection \<open>Digests\<close>

text \<open>
  C2, as the code has it. \<open>tasksByAssignee\<close> is created anew for every project (line 378)
  and its digests are sent before the next project is read, so the tasks are grouped per
  assignee and project. When the processing of a project completes, it has made exactly
  one delivery call for each user who is the non-empty assignee of a task returned by the
  project's query, exists and allows reminders, and that digest lists all the tasks of
  this user returned by the query, in the order of the query. For the three tasks of
  \<open>u1\<close> (due today), \<open>u1\<close> (due tomorrow) and \<open>u2\<close> (due today) in one project, the run
  makes exactly two delivery calls: one to \<open>u1\<close> listing two tasks, one to \<open>u2\<close> listing
  one task.
\<close>

theorem project_digest_grouping:
  assumes "project_reminders e today dat tenantId tn (projectId, p) acc = (None, acc')"
  shows "(\<exists>docs us.
      tasksCollection e tenantId projectId = Inr docs
      \<and> distinct (map fst us)
      \<and> set us = {(k, u). k \<noteq> [] \<and> (\<exists>d \<in> set (due_query today dat docs). assignedTo (snd d) = Str k)
                    \<and> users e k = Inr (Some u) \<and> \<not> preference_disabled u DueReminders}
      \<and> acc' = acc @ map (\<lambda>(k, u). digest_mail tn u
                             (map (digest_entry projectId p)
                                (filter (\<lambda>d. assignedTo (snd d) = Str k)
                                   (due_query today dat docs)))) us)
    \<and> sendDueDateReminders one_project 25200000
      = (Success,
         [digest_mail acme ann
            [digest_entry ''p1'' \<lparr>title = Str ''Site''\<rparr> (''k1'', due_task ''u1'' 39600000),
             digest_entry ''p1'' \<lparr>title = Str ''Site''\<rparr> (''k2'', due_task ''u1'' 126000000)],
          digest_mail acme bob
            [digest_entry ''p1'' \<lparr>title = Str ''Site''\<rparr> (''k3'', due_task ''u2'' 39600000)]])"
proof -
  from project_reminders_None [OF assms] obtain docs m where
    docs: "tasksCollection e tenantId projectId = Inr docs"
    and m: "group_tasks projectId p (due_query today dat docs) [] = Inr m"
    and acc': "acc' = acc @ digest_mails e tn (object_entries m)"
    by auto
  let ?es = "object_entries m"
  let ?us = "eligible e DueReminders (map fst ?es)"
  let ?F = "\<lambda>k. assignee_tasks projectId p k (due_query today dat docs)"
  have d: "distinct (map fst ?es)"
    using group_tasks_result(1) [OF m] by (simp add: object_entries_distinct)
  have f: "\<forall>(k, ts) \<in> set ?es. ts = ?F k"
    unfolding object_entries_set group_tasks_result(2) [OF m] by auto
  have 1: "distinct (map fst ?us)" using d by (rule eligible_distinct)
  have 2: "set ?us = {(k, u). k \<noteq> [] \<and> (\<exists>d \<in> set (due_query today dat docs). assignedTo (snd d) = Str k)
                    \<and> users e k = Inr (Some u) \<and> \<not> preference_disabled u DueReminders}"
    using grouped_keys [OF m] by (auto simp: eligible_set)
  have 3: "acc' = acc @ map (\<lambda>(k, u). digest_mail tn u (?F k)) ?us"
    unfolding acc' using digest_mails_map [OF f] by simp
  from docs 1 2 3 have "\<exists>docs us.
      tasksCollection e tenantId projectId = Inr docs
      \<and> distinct (map fst us)
      \<and> set us = {(k, u). k \<noteq> [] \<and> (\<exists>d \<in> set (due_query today dat docs). assignedTo (snd d) = Str k)
                    \<and> users e k = Inr (Some u) \<and> \<not> preference_disabled u DueReminders}
      \<and> acc' = acc @ map (\<lambda>(k, u). digest_mail tn u
                             (map (digest_entry projectId p)
                                (filter (\<lambda>d. assignedTo (snd d) = Str k)
                                   (due_query today dat docs)))) us"
    unfolding assignee_tasks_def by blast
  with one_project_run show ?thesis by blast
qed

text \<open>The three tasks of the claim in one project: two digests, one to \<open>u1\<close> listing
  two tasks, one to \<open>u2\<close> listing one task.\<close>

theorem project_digest_grouping_witness:
  "project_reminders one_project (- 3600000) 169200000 ''t1'' acme (''p1'', \<lparr>title = Str ''Site''\<rparr>) []
     = (None,
        [digest_mail acme ann
           [digest_entry ''p1'' \<lparr>title = Str ''Site''\<rparr> (''k1'', due_task ''u1'' 39600000),
            digest_entry ''p1'' \<lparr>title = Str ''Site''\<rparr> (''k2'', due_task ''u1'' 126000000)],
         digest_mail acme bob
           [digest_entry ''p1'' \<lparr>title = Str ''Site''\<rparr> (''k3'', due_task ''u2'' 39600000)]])
   \<and> sendDueDateReminders one_project 25200000
     = (Success,
        [digest_mail acme ann
           [digest_entry ''p1'' \<lparr>title = Str ''Site''\<rparr> (''k1'', due_task ''u1'' 39600000),
            digest_entry ''p1'' \<lparr>title = Str ''Site''\<rparr> (''k2'', due_task ''u1'' 126000000)],
         digest_mail acme bob
           [digest_entry ''p1'' \<lparr>title = Str ''Site''\<rparr> (''k3'', due_task ''u2'' 39600000)]])
   \<and> (\<exists>docs us.
        tasksCollection one_project ''t1'' ''p1'' = Inr docs
        \<and> distinct (map fst us)
        \<and> set us = {(k, u). k \<noteq> [] \<and> (\<exists>d \<in> set (due_query (- 3600000) 169200000 docs). assignedTo (snd d) = Str k)
                      \<and> users one_project k = Inr (Some u) \<and> \<not> preference_disabled u DueReminders}
        \<and> [digest_mail acme ann
             [digest_entry ''p1'' \<lparr>title = Str ''Site''\<rparr> (''k1'', due_task ''u1'' 39600000),
              digest_entry ''p1'' \<lparr>title = Str ''Site''\<rparr> (''k2'', due_task ''u1'' 126000000)],
            digest_mail acme bob
             [digest_entry ''p1'' \<lparr>title = Str ''Site''\<rparr> (''k3'', due_task ''u2'' 39600000)]]
           = [] @ map (\<lambda>(k, u). digest_mail acme u
                               (map (digest_entry ''p1'' \<lparr>title = Str ''Site''\<rparr>)
                                  (filter (\<lambda>d. assignedTo (snd d) = Str k)
                                     (due_query (- 3600000) 169200000 docs)))) us)"
proof -
  have h: "project_reminders one_project (- 3600000) 169200000 ''t1'' acme (''p1'', \<lparr>title = Str ''Site''\<rparr>) []
     = (None,
        [digest_mail acme ann
           [digest_entry ''p1'' \<lparr>title = Str ''Site''\<rparr> (''k1'', due_task ''u1'' 39600000),
            digest_entry ''p1'' \<lparr>title = Str ''Site''\<rparr> (''k2'', due_task ''u1'' 126000000)],
         digest_mail acme bob
           [digest_entry ''p1'' \<lparr>title = Str ''Site''\<rparr> (''k3'', due_task ''u2'' 39600000)]])"
    by (simp add: one_project_def healthy_def project_reminders_def
        due_query_def due_task_def group_task_def object_entries_def
        preference_disabled_def ann_def bob_def)
  from project_digest_grouping [OF h] h show ?thesis by blast
qed

text \<open>The claim as stated fails: \<open>u1\<close> is assignee of one qualifying task in each of two
  projects of the same tenant and receives two digests in the run, each listing one task.\<close>

theorem digest_per_project_not_per_tenant:
  "tenantsSnapshot two_projects = Inr [(''t1'', acme)]
   \<and> sendDueDateReminders two_projects 25200000 =
     (Success,
      [digest_mail acme ann [digest_entry ''p1'' \<lparr>title = Str ''Site''\<rparr> (''k1'', due_task ''u1'' 39600000)],
       digest_mail acme ann [digest_entry ''p2'' \<lparr>title = Str ''Shop''\<rparr> (''k2'', due_task ''u1'' 126000000)]])
   \<and> map to (snd (sendDueDateReminders two_projects 25200000)) = [Str ''ann@yet.lu'', Str ''ann@yet.lu'']"
  by (simp add: two_projects_run) (simp add: two_projects_def digest_mail_def ann_def)

text \<open>
  C8, as the code has it. A run at the instant \<open>now\<close> takes for \<open>today\<close> the local midnight
  before \<open>now\<close> (local time being UTC plus a fixed offset) and for \<open>dayAfterTomorrow\<close> the
  instant two days later. A task qualifies when its \<open>dueDate\<close> lies in
  \<open>[today, dayAfterTomorrow)\<close> and its status is not \<open>"done"\<close>. In every run, every address
  to which a digest is sent is that of an existing user who allows \<open>dueReminders\<close> and is
  the non-empty assignee of at least one qualifying task in some project of some tenant;
  and when the run completes without a raised error, the addresses to which a digest is
  sent are exactly those.
\<close>

theorem digest_recipients:
  "(let today = today_of (utcOffset e) now;
        recipients =
          {email u |u k tds tenantId tn pds projectId p docs taskId t due.
            tenantsSnapshot e = Inr tds \<and> (tenantId, tn) \<in> set tds
            \<and> projectsSnapshot e tenantId = Inr pds \<and> (projectId, p) \<in> set pds
            \<and> tasksCollection e tenantId projectId = Inr docs \<and> (taskId, t) \<in> set docs
            \<and> dueDate t = Some due \<and> today \<le> due \<and> due < today + 2 * 86400000
            \<and> taskStatus t \<noteq> ''done''
            \<and> assignedTo t = Str k \<and> k \<noteq> []
            \<and> users e k = Inr (Some u) \<and> \<not> preference_disabled u DueReminders}
    in (today + utcOffset e) mod 86400000 = 0 \<and> today \<le> now \<and> now < today + 86400000
       \<and> to ` set (snd (sendDueDateReminders e now)) \<subseteq> recipients
       \<and> (fst (sendDueDateReminders e now) = Success \<longrightarrow>
            to ` set (snd (sendDueDateReminders e now)) = recipients))"
proof -
  let ?t = "today_of (utcOffset e) now"
  have d: "dayAfterTomorrow_of (utcOffset e) now = ?t + 2 * 86400000"
    by (simp add: dayAfterTomorrow_of_def ms_per_day_def)
  have "?t + utcOffset e = (now + utcOffset e) - (now + utcOffset e) mod 86400000"
    by (simp add: today_of_def ms_per_day_def)
  then have 1: "(?t + utcOffset e) mod 86400000 = 0"
    by (simp add: minus_mod_eq_mult_div)
  have 2: "?t \<le> now" "now < ?t + 86400000"
    by (simp_all add: today_of_def ms_per_day_def)
  have 3: "to ` set (snd (sendDueDateReminders e now)) \<subseteq> due_recipients e ?t (?t + 2 * 86400000)"
    using run_recipients_part [of e now] by (simp add: d)
  have 4: "fst (sendDueDateReminders e now) = Success \<longrightarrow>
      to ` set (snd (sendDueDateReminders e now)) = due_recipients e ?t (?t + 2 * 86400000)"
    using run_recipients_success [of e now "snd (sendDueDateReminders e now)"]
    by (cases "sendDueDateReminders e now") (simp add: d)
  from 1 2 3 4 show ?thesis unfolding Let_def due_recipients_def by blast
qed

lemma mixed_tasks_run:
  "sendDueDateReminders mixed_tasks 25200000 =
     (Success,
      [digest_mail acme ann [digest_entry ''p1'' \<lparr>title = Str ''Site''\<rparr> (''k1'', due_task ''u1'' (- 3600000))]])"
  by (simp add: sendDueDateReminders_def mixed_tasks_def one_project_def healthy_def
      project_reminders_def due_query_def due_task_def group_task_def object_entries_def
      preference_disabled_def ann_def bob_def)

text \<open>A run at 08:00 local time, one hour east of UTC: of the seven tasks only \<open>k1\<close>, due at
  the local midnight before, counts, and the one digest goes to its assignee.\<close>

theorem digest_recipients_witness:
  "sendDueDateReminders mixed_tasks 25200000 =
     (Success,
      [digest_mail acme ann [digest_entry ''p1'' \<lparr>title = Str ''Site''\<rparr> (''k1'', due_task ''u1'' (- 3600000))]])
   \<and> today_of (utcOffset mixed_tasks) 25200000 = - 3600000
   \<and> {Str ''ann@yet.lu''} =
     {email u |u k tds tenantId tn pds projectId p docs taskId t due.
        tenantsSnapshot mixed_tasks = Inr tds \<and> (tenantId, tn) \<in> set tds
        \<and> projectsSnapshot mixed_tasks tenantId = Inr pds \<and> (projectId, p) \<in> set pds
        \<and> tasksCollection mixed_tasks tenantId projectId = Inr docs \<and> (taskId, t) \<in> set docs
        \<and> dueDate t = Some due \<and> - 3600000 \<le> due \<and> due < 169200000
        \<and> taskStatus t \<noteq> ''done''
        \<and> assignedTo t = Str k \<and> k \<noteq> []
        \<and> users mixed_tasks k = Inr (Some u) \<and> \<not> preference_disabled u DueReminders}"
proof -
  have o: "utcOffset mixed_tasks = 3600000"
    by (simp add: mixed_tasks_def one_project_def healthy_def)
  have t: "today_of (utcOffset mixed_tasks) 25200000 = - 3600000"
    by (simp add: o)
  have s: "fst (sendDueDateReminders mixed_tasks 25200000) = Success"
    "to ` set (snd (sendDueDateReminders mixed_tasks 25200000)) = {Str ''ann@yet.lu''}"
    by (simp_all add: mixed_tasks_run digest_mail_def ann_def)
  from digest_recipients [of mixed_tasks 25200000] s
  have "{Str ''ann@yet.lu''} =
     {email u |u k tds tenantId tn pds projectId p docs taskId t due.
        tenantsSnapshot mixed_tasks = Inr tds \<and> (tenantId, tn) \<in> set tds
        \<and> projectsSnapshot mixed_tasks tenantId = Inr pds \<and> (projectId, p) \<in> set pds
        \<and> tasksCollection mixed_tasks tenantId projectId = Inr docs \<and> (taskId, t) \<in> set docs
        \<and> dueDate t = Some due \<and> - 3600000 \<le> due \<and> due < 169200000
        \<and> taskStatus t \<noteq> ''done''
        \<and> assignedTo t = Str k \<and> k \<noteq> []
        \<and> users mixed_tasks k = Inr (Some u) \<and> \<not> preference_disabled u DueReminders}"
    unfolding Let_def t by simp
  with mixed_tasks_run t show ?thesis by blast
qed

text \<open>The claim as stated fails: \<open>u2\<close> exists, allows reminders and is assignee of the
  qualifying task \<open>k3\<close>, but the lookup of \<open>u1\<close>, which comes first, raises, the run ends
  with a failure and \<open>u2\<close> receives no digest.\<close>

theorem digest_lookup_failure_skips_recipient:
  "tasksCollection lookup_fails ''t1'' ''p1''
     = Inr [(''k1'', due_task ''u1'' 39600000), (''k2'', due_task ''u1'' 126000000),
            (''k3'', due_task ''u2'' 39600000)]
   \<and> dueDate (due_task ''u2'' 39600000) = Some 39600000
   \<and> today_of (utcOffset lookup_fails) 25200000 \<le> 39600000
   \<and> 39600000 < dayAfterTomorrow_of (utcOffset lookup_fails) 25200000
   \<and> taskStatus (due_task ''u2'' 39600000) \<noteq> ''done''
   \<and> assignedTo (due_task ''u2'' 39600000) = Str ''u2''
   \<and> users lookup_fails ''u2'' = Inr (Some bob) \<and> \<not> preference_disabled bob DueReminders
   \<and> sendDueDateReminders lookup_fails 25200000 = (Failure ''unavailable'', [])"
  by (simp add: sendDueDateReminders_def lookup_fails_def one_project_def healthy_def
      project_reminders_def due_query_def due_task_def group_task_def object_entries_def
      preference_disabled_def bob_def)

end
